theory Spec2Isabelle
  imports Complex_Main
begin

section \<open>Values, trees and errors of converter.py\<close>

text \<open>
  The exceptions that can leave \<open>parser.parse\<close>.  \<open>main\<close> catches \<open>LarkError\<close>,
  \<open>ValueError\<close>, \<open>ZeroDivisionError\<close> and \<open>TypeError\<close>; an \<open>IndexError\<close> (from
  \<open>tree.children[1]\<close>) and an \<open>OverflowError\<close> (from Python's arithmetic on an \<open>int\<close>
  too large for a \<open>float\<close>) are caught nowhere.
\<close>

datatype error =
  LarkError | TypeError | ZeroDivisionError | ValueError | IndexError | OverflowError

text \<open>
  A Python \<open>float\<close> is an IEEE 754 binary64 number: a finite number with a significand
  of 53 bits, one of two zeros, one of two infinities, or a NaN.  \<open>Fin x\<close> is the
  finite \<open>float\<close> whose value is the rational \<open>x\<close>, \<open>Fin 0\<close> the positive zero and
  \<open>NegZero\<close> the negative one.
\<close>

datatype pyfloat = Fin rat | NegZero | PosInf | NegInf | NaN

text \<open>
  The Python objects the transformer produces: \<open>int\<close>, \<open>float\<close>, \<open>str\<close>, \<open>list\<close>,
  \<open>dict\<close> (insertion ordered, so an association list with unique keys), \<open>tuple\<close> and
  \<open>None\<close>.  Python's \<open>int\<close> is unbounded.
\<close>

datatype pyval =
    PInt int
  | PFloat pyfloat
  | PStr string
  | PList "pyval list"
  | PDict "(string \<times> pyval) list"
  | PTuple "pyval list"
  | PNone

text \<open>
  Lark builds a \<open>Tree\<close> for exactly the rules and aliases of the grammar that have no
  method in \<open>ConfigTransformer\<close>: \<open>expr\<close>, \<open>add\<close>, \<open>sub\<close>, \<open>term\<close>, \<open>mul\<close>, \<open>div\<close>,
  \<open>factor\<close> and \<open>function\<close>.  The children of a tree are trees or values already
  computed by a callback.
\<close>

datatype tag = Expr | Add | Sub | Term | Mul | Div | Factor | Function

datatype node = Tree tag "node list" | Leaf pyval

type_synonym constants = "string \<rightharpoonup> pyval"

datatype binop = OpAdd | OpSub | OpMul | OpDiv

section \<open>Python floats\<close>

text \<open>
  Rounding to binary64, in integer arithmetic on a fraction \<open>n / d\<close> with \<open>0 < n\<close> and
  \<open>0 < d\<close>.  \<open>bit_length\<close> is \<open>int.bit_length\<close>; \<open>log2_floor n d\<close> is the exponent \<open>e\<close>
  with \<open>2 ^ e \<le> n / d < 2 ^ (e + 1)\<close>.
\<close>

function bit_length :: "int \<Rightarrow> int" where
  "bit_length n = (if n \<le> 0 then 0 else 1 + bit_length (n div 2))"
  by pat_completeness auto
termination by (relation "measure nat") auto

declare bit_length.simps [simp del]

definition log2_floor :: "int \<Rightarrow> int \<Rightarrow> int" where
  "log2_floor n d =
     (let k = bit_length n - bit_length d
      in if (if 0 \<le> k then 2 ^ nat k * d \<le> n else d \<le> n * 2 ^ nat (- k)) then k else k - 1)"

text \<open>The integer nearest to \<open>n / d\<close>, the even one of two that are equally near.\<close>

definition round_half_even :: "int \<Rightarrow> int \<Rightarrow> int" where
  "round_half_even n d =
     (let f = n div d; r = n mod d
      in if 2 * r < d then f else if d < 2 * r then f + 1 else if even f then f else f + 1)"

text \<open>
  The multiple of \<open>2 ^ q\<close> nearest to \<open>n / d\<close>, where \<open>2 ^ q\<close> is the spacing of the
  binary64 numbers around \<open>n / d\<close>: 52 binary places below the leading bit, and never
  below \<open>2 ^ - 1074\<close>, the spacing of the subnormal numbers.
\<close>

definition round_ratio :: "int \<Rightarrow> int \<Rightarrow> rat" where
  "round_ratio n d =
     (let q = max (log2_floor n d) (- 1022) - 52
      in if 0 \<le> q then of_int (round_half_even n (d * 2 ^ nat q) * 2 ^ nat q)
         else of_int (round_half_even (n * 2 ^ nat (- q)) d) / of_int (2 ^ nat (- q)))"

text \<open>
  \<open>n / d\<close> rounds to \<open>2 ^ 1024\<close> or beyond, past the largest binary64 number
  \<open>2 ^ 1024 - 2 ^ 971\<close>, exactly when it is at least \<open>2 ^ 1024 - 2 ^ 970\<close>.
\<close>

definition dbl_limit :: int where
  "dbl_limit = 2 ^ 1024 - 2 ^ 970"

definition dbl_overflow :: "int \<Rightarrow> int \<Rightarrow> bool" where
  "dbl_overflow n d = (dbl_limit * d \<le> n)"

definition signed_zero :: "bool \<Rightarrow> pyfloat" where
  "signed_zero neg = (if neg then NegZero else Fin 0)"

definition infinity :: "bool \<Rightarrow> pyfloat" where
  "infinity neg = (if neg then NegInf else PosInf)"

text \<open>
  The \<open>float\<close> nearest to the fraction \<open>n / d\<close> (\<open>0 \<le> n\<close>, \<open>0 < d\<close>) with the sign
  \<open>neg\<close>, as IEEE 754 rounds to nearest: an infinity on overflow, a zero on underflow.
\<close>

definition to_double :: "bool \<Rightarrow> int \<Rightarrow> int \<Rightarrow> pyfloat" where
  "to_double neg n d =
     (if n = 0 then signed_zero neg
      else if dbl_overflow n d then infinity neg
      else let r = round_ratio n d
           in if r = 0 then signed_zero neg else Fin (if neg then - r else r))"

definition round_rat :: "rat \<Rightarrow> pyfloat" where
  "round_rat x = (case quotient_of \<bar>x\<bar> of (n, d) \<Rightarrow> to_double (x < 0) n d)"

fun is_nan :: "pyfloat \<Rightarrow> bool" where
  "is_nan NaN = True"
| "is_nan _ = False"

fun is_inf :: "pyfloat \<Rightarrow> bool" where
  "is_inf PosInf = True"
| "is_inf NegInf = True"
| "is_inf _ = False"

fun is_zero :: "pyfloat \<Rightarrow> bool" where
  "is_zero (Fin x) = (x = 0)"
| "is_zero NegZero = True"
| "is_zero _ = False"

fun sign_bit :: "pyfloat \<Rightarrow> bool" where
  "sign_bit (Fin x) = (x < 0)"
| "sign_bit NegZero = True"
| "sign_bit NegInf = True"
| "sign_bit _ = False"

fun fval :: "pyfloat \<Rightarrow> rat" where
  "fval (Fin x) = x"
| "fval _ = 0"

fun fneg :: "pyfloat \<Rightarrow> pyfloat" where
  "fneg (Fin x) = (if x = 0 then NegZero else Fin (- x))"
| "fneg NegZero = Fin 0"
| "fneg PosInf = NegInf"
| "fneg NegInf = PosInf"
| "fneg NaN = NaN"

fun fabs :: "pyfloat \<Rightarrow> pyfloat" where
  "fabs (Fin x) = Fin \<bar>x\<bar>"
| "fabs NegZero = Fin 0"
| "fabs NegInf = PosInf"
| "fabs x = x"

text \<open>
  \<open>+\<close>, \<open>-\<close>, \<open>*\<close> and \<open>/\<close> of two \<open>float\<close>s: the exact result rounded to nearest, with
  the rules of IEEE 754 for NaN, the infinities and the sign of a zero.  None of them
  raises; \<open>fdiv\<close> is applied to a divisor that is not a zero.
\<close>

definition fadd :: "pyfloat \<Rightarrow> pyfloat \<Rightarrow> pyfloat" where
  "fadd x y =
     (if is_nan x \<or> is_nan y then NaN
      else if is_inf x then (if is_inf y \<and> sign_bit x \<noteq> sign_bit y then NaN else x)
      else if is_inf y then y
      else if is_zero x \<and> is_zero y then signed_zero (sign_bit x \<and> sign_bit y)
      else round_rat (fval x + fval y))"

definition fsub :: "pyfloat \<Rightarrow> pyfloat \<Rightarrow> pyfloat" where
  "fsub x y = fadd x (fneg y)"

definition fmul :: "pyfloat \<Rightarrow> pyfloat \<Rightarrow> pyfloat" where
  "fmul x y =
     (if is_nan x \<or> is_nan y then NaN
      else if is_inf x \<or> is_inf y
        then (if is_zero x \<or> is_zero y then NaN else infinity (sign_bit x \<noteq> sign_bit y))
      else if is_zero x \<or> is_zero y then signed_zero (sign_bit x \<noteq> sign_bit y)
      else round_rat (fval x * fval y))"

definition fdiv :: "pyfloat \<Rightarrow> pyfloat \<Rightarrow> pyfloat" where
  "fdiv x y =
     (if is_nan x \<or> is_nan y then NaN
      else if is_inf x then (if is_inf y then NaN else infinity (sign_bit x \<noteq> sign_bit y))
      else if is_inf y \<or> is_zero x then signed_zero (sign_bit x \<noteq> sign_bit y)
      else round_rat (fval x / fval y))"

section \<open>Python arithmetic\<close>

definition is_number :: "pyval \<Rightarrow> bool" where
  "is_number v = (case v of PInt _ \<Rightarrow> True | PFloat _ \<Rightarrow> True | _ \<Rightarrow> False)"

definition is_list :: "pyval \<Rightarrow> bool" where
  "is_list v = (case v of PList _ \<Rightarrow> True | _ \<Rightarrow> False)"

text \<open>\<open>b != 0\<close>: false for the \<open>int\<close> 0 and for the two \<open>float\<close> zeros, true for a NaN.\<close>

fun ne_zero :: "pyval \<Rightarrow> bool" where
  "ne_zero (PInt j) = (j \<noteq> 0)"
| "ne_zero (PFloat y) = (\<not> is_zero y)"
| "ne_zero _ = True"

text \<open>
  The conversion of an \<open>int\<close> operand to a \<open>float\<close>, which Python makes when the other
  operand is a \<open>float\<close>: the nearest \<open>float\<close>, or \<open>OverflowError\<close> (int too large to
  convert to float).
\<close>

definition int_to_float :: "int \<Rightarrow> error + pyfloat" where
  "int_to_float i =
     (if dbl_overflow \<bar>i\<bar> 1 then Inl OverflowError else Inr (to_double (i < 0) \<bar>i\<bar> 1))"

fun to_float :: "pyval \<Rightarrow> error + pyfloat" where
  "to_float (PInt i) = int_to_float i"
| "to_float (PFloat x) = Inr x"
| "to_float _ = Inl TypeError"

text \<open>
  \<open>a + b\<close>, \<open>a - b\<close>, \<open>a * b\<close> on numbers: the exact \<open>int\<close> for two \<open>int\<close>s; otherwise
  both operands as \<open>float\<close>s and the operation of \<open>float\<close>.
\<close>

fun arith :: "(int \<Rightarrow> int \<Rightarrow> int) \<Rightarrow> (pyfloat \<Rightarrow> pyfloat \<Rightarrow> pyfloat) \<Rightarrow> pyval \<Rightarrow> pyval
    \<Rightarrow> error + pyval" where
  "arith fi ff (PInt a) (PInt b) = Inr (PInt (fi a b))"
| "arith fi ff a b =
     (case to_float a of
        Inl e \<Rightarrow> Inl e
      | Inr x \<Rightarrow> (case to_float b of Inl e \<Rightarrow> Inl e | Inr y \<Rightarrow> Inr (PFloat (ff x y))))"

text \<open>
  \<open>a / b\<close> on numbers, Python's true division.  For two \<open>int\<close>s it is the \<open>float\<close>
  nearest to the exact quotient, or \<open>OverflowError\<close> (integer division result too
  large for a float); the operands are not converted one by one.  Otherwise both
  operands become \<open>float\<close>s and are divided as such.
\<close>

fun true_div :: "pyval \<Rightarrow> pyval \<Rightarrow> error + pyval" where
  "true_div (PInt a) (PInt b) =
     (if b = 0 then Inl ZeroDivisionError
      else if dbl_overflow \<bar>a\<bar> \<bar>b\<bar> then Inl OverflowError
      else Inr (PFloat (to_double ((a < 0) \<noteq> (b < 0)) \<bar>a\<bar> \<bar>b\<bar>)))"
| "true_div a b =
     (case to_float a of
        Inl e \<Rightarrow> Inl e
      | Inr x \<Rightarrow>
          (case to_float b of
             Inl e \<Rightarrow> Inl e
           | Inr y \<Rightarrow> if is_zero y then Inl ZeroDivisionError else Inr (PFloat (fdiv x y))))"

text \<open>
  The four lambdas handed to \<open>_eval_binary_op\<close>, applied to two numbers.  The one of
  \<open>div\<close> is \<open>a / b if b != 0 else self._zero_division_error()\<close>.
\<close>

fun op_func :: "binop \<Rightarrow> pyval \<Rightarrow> pyval \<Rightarrow> error + pyval" where
  "op_func OpAdd a b = arith (+) fadd a b"
| "op_func OpSub a b = arith (-) fsub a b"
| "op_func OpMul a b = arith (*) fmul a b"
| "op_func OpDiv a b = (if ne_zero b then true_div a b else Inl ZeroDivisionError)"

text \<open>\<open>abs(arg)\<close> on a number keeps its kind.\<close>

fun py_abs :: "pyval \<Rightarrow> pyval" where
  "py_abs (PInt i) = PInt \<bar>i\<bar>"
| "py_abs (PFloat x) = PFloat (fabs x)"
| "py_abs v = v"

text \<open>An \<open>int\<close> operand that converts to a \<open>float\<close> without \<open>OverflowError\<close>.\<close>

fun float_range :: "pyval \<Rightarrow> bool" where
  "float_range (PInt i) = (\<bar>i\<bar> < dbl_limit)"
| "float_range _ = True"

section \<open>ConfigTransformer: evaluation of trees\<close>

text \<open>
  \<open>_get_value\<close>, \<open>_transform_tree\<close>, \<open>_eval_binary_op\<close> and \<open>_eval_function\<close>, under the
  constant table \<open>self.constants\<close>, which none of them changes.  A tree is dispatched
  on its tag; a \<open>str\<close> is looked up in the table and stays itself when absent; every
  other value is returned as it is.

  \<open>_eval_binary_op\<close> evaluates \<open>children[0]\<close>, then \<open>children[1]\<close>, then checks that
  both are numbers, then applies the operation.  \<open>_eval_function\<close> reads the function
  name from \<open>children[0]\<close> and the argument from \<open>children[1]\<close> and evaluates the
  argument before it looks at the name.
\<close>

fun get_value :: "constants \<Rightarrow> node \<Rightarrow> error + pyval"
  and eval_binary_op :: "constants \<Rightarrow> node list \<Rightarrow> binop \<Rightarrow> error + pyval"
  and eval_function :: "constants \<Rightarrow> node list \<Rightarrow> error + pyval"
where
  "get_value c (Tree Add ch) = eval_binary_op c ch OpAdd"
| "get_value c (Tree Sub ch) = eval_binary_op c ch OpSub"
| "get_value c (Tree Mul ch) = eval_binary_op c ch OpMul"
| "get_value c (Tree Div ch) = eval_binary_op c ch OpDiv"
| "get_value c (Tree Function ch) = eval_function c ch"
| "get_value c (Tree Expr ch) = (case ch of [] \<Rightarrow> Inl IndexError | n # _ \<Rightarrow> get_value c n)"
| "get_value c (Tree Term ch) = (case ch of [] \<Rightarrow> Inl IndexError | n # _ \<Rightarrow> get_value c n)"
| "get_value c (Tree Factor ch) = (case ch of [] \<Rightarrow> Inl IndexError | n # _ \<Rightarrow> get_value c n)"
| "get_value c (Leaf (PStr s)) = (case c s of Some v \<Rightarrow> Inr v | None \<Rightarrow> Inr (PStr s))"
| "get_value c (Leaf v) = Inr v"
| "eval_binary_op c ch opr =
     (case ch of
        l # r # _ \<Rightarrow>
          (case get_value c l of
             Inl e \<Rightarrow> Inl e
           | Inr left \<Rightarrow>
               (case get_value c r of
                  Inl e \<Rightarrow> Inl e
                | Inr right \<Rightarrow>
                    if \<not> (is_number left \<and> is_number right) then Inl TypeError
                    else op_func opr left right))
      | _ \<Rightarrow> Inl IndexError)"
| "eval_function c ch =
     (case ch of
        func_name # arg_tree # _ \<Rightarrow>
          (case get_value c arg_tree of
             Inl e \<Rightarrow> Inl e
           | Inr arg \<Rightarrow>
               if func_name = Leaf (PStr ''len'') then
                 (case arg of PList xs \<Rightarrow> Inr (PInt (int (length xs))) | _ \<Rightarrow> Inl TypeError)
               else if func_name = Leaf (PStr ''abs'') then
                 (if is_number arg then Inr (py_abs arg) else Inl TypeError)
               else Inl ValueError)
      | _ \<Rightarrow> Inl IndexError)"

section \<open>ConfigTransformer: the callbacks of the grammar rules\<close>

definition is_digit :: "char \<Rightarrow> bool" where
  "is_digit ch = (48 \<le> (of_char ch :: nat) \<and> (of_char ch :: nat) \<le> 57)"

definition digit_val :: "char \<Rightarrow> int" where
  "digit_val ch = int (of_char ch) - 48"

definition digits_val :: "string \<Rightarrow> int" where
  "digits_val ds = foldl (\<lambda>acc ch. 10 * acc + digit_val ch) 0 ds"

text \<open>An optional sign in front of a numeral: the sign as a factor, and the rest.\<close>

fun take_sign :: "string \<Rightarrow> int \<times> string" where
  "take_sign [] = (1, [])"
| "take_sign (ch # cs) =
     (if ch = CHR ''-'' then (-1, cs) else if ch = CHR ''+'' then (1, cs) else (1, ch # cs))"

text \<open>
  \<open>float(text)\<close> on the text of a \<open>SIGNED_NUMBER\<close> token (sign, digits, optional
  fraction, optional exponent): the \<open>float\<close> nearest to the decimal value, which is a
  mantissa times a power of ten.  A literal beyond the range gives an infinity, not an
  exception.
\<close>

definition float_exponent :: "string \<Rightarrow> int" where
  "float_exponent s =
     (case s of
        [] \<Rightarrow> 0
      | ch # cs \<Rightarrow>
          if ch = CHR ''e'' \<or> ch = CHR ''E''
          then (case take_sign cs of (sg, ds) \<Rightarrow> sg * digits_val (takeWhile is_digit ds))
          else 0)"

definition float_of :: "string \<Rightarrow> pyfloat" where
  "float_of text =
     (case take_sign text of
        (sg, s1) \<Rightarrow>
          let ip = takeWhile is_digit s1;
              s2 = dropWhile is_digit s1;
              s3 = (case s2 of [] \<Rightarrow> [] | ch # cs \<Rightarrow> if ch = CHR ''.'' then cs else s2);
              fp = (if s3 = s2 then [] else takeWhile is_digit s3);
              s4 = (if s3 = s2 then s2 else dropWhile is_digit s3);
              m = digits_val (ip @ fp);
              e = float_exponent s4 - int (length fp)
          in if 0 \<le> e then to_double (sg < 0) (m * 10 ^ nat e) 1
             else to_double (sg < 0) m (10 ^ nat (- e)))"

text \<open>
  \<open>float.is_integer()\<close>: a finite \<open>float\<close> without fractional part.  \<open>int(val)\<close>
  truncates a finite \<open>float\<close>; \<open>number\<close> calls it only when \<open>is_integer\<close> holds, so on
  no infinity and no NaN, where it would raise.
\<close>

fun is_integer :: "pyfloat \<Rightarrow> bool" where
  "is_integer (Fin x) = (of_int \<lfloor>x\<rfloor> = x)"
| "is_integer NegZero = True"
| "is_integer _ = False"

definition int_of :: "pyfloat \<Rightarrow> int" where
  "int_of val = (if 0 \<le> fval val then \<lfloor>fval val\<rfloor> else - \<lfloor>- fval val\<rfloor>)"

text \<open>\<open>number\<close>: \<open>val = float(n[0].value); return int(val) if val.is_integer() else val\<close>.\<close>

definition number :: "string \<Rightarrow> pyval" where
  "number text = (let val = float_of text in if is_integer val then PInt (int_of val) else PFloat val)"

text \<open>Evaluating a list of children in order; the first exception leaves.\<close>

fun get_values :: "constants \<Rightarrow> node list \<Rightarrow> error + pyval list" where
  "get_values c [] = Inr []"
| "get_values c (n # ns) =
     (case get_value c n of
        Inl e \<Rightarrow> Inl e
      | Inr v \<Rightarrow> (case get_values c ns of Inl e \<Rightarrow> Inl e | Inr vs \<Rightarrow> Inr (v # vs)))"

text \<open>\<open>array\<close>: \<open>[self._get_value(item) for item in items]\<close>.\<close>

definition array :: "constants \<Rightarrow> node list \<Rightarrow> error + pyval" where
  "array c items = (case get_values c items of Inl e \<Rightarrow> Inl e | Inr vs \<Rightarrow> Inr (PList vs))"

text \<open>
  \<open>d[k] = v\<close> on an insertion-ordered \<open>dict\<close>: a key already present keeps its
  position and takes the new value, a new key goes to the end.
\<close>

fun dict_set :: "(string \<times> pyval) list \<Rightarrow> string \<Rightarrow> pyval \<Rightarrow> (string \<times> pyval) list" where
  "dict_set [] k v = [(k, v)]"
| "dict_set ((k', v') # d) k v = (if k' = k then (k, v) # d else (k', v') # dict_set d k v)"

text \<open>\<open>dict_entry\<close>: \<open>(str(items[0]), items[1])\<close>, the key and the value already computed.\<close>

definition dict_entry :: "string \<Rightarrow> pyval \<Rightarrow> string \<times> pyval" where
  "dict_entry key v = (key, v)"

text \<open>
  \<open>dict\<close>: \<open>{k: self._get_value(v) for k, v in items}\<close>, the entries taken left to
  right into a \<open>dict\<close> that starts empty.
\<close>

fun dict_from :: "constants \<Rightarrow> (string \<times> pyval) list \<Rightarrow> (string \<times> pyval) list \<Rightarrow> error + pyval" where
  "dict_from c d [] = Inr (PDict d)"
| "dict_from c d ((k, v) # items) =
     (case get_value c (Leaf v) of
        Inl e \<Rightarrow> Inl e
      | Inr w \<Rightarrow> dict_from c (dict_set d k w) items)"

definition dict :: "constants \<Rightarrow> (string \<times> pyval) list \<Rightarrow> error + pyval" where
  "dict c items = dict_from c [] items"

text \<open>
  What \<open>_get_value\<close> returns for a value that is not a tree, and the step of the
  dict comprehension that stores one entry; both serve to state properties of \<open>dict\<close>.
\<close>

definition resolved :: "constants \<Rightarrow> pyval \<Rightarrow> pyval" where
  "resolved c v = (case v of PStr s \<Rightarrow> (case c s of Some w \<Rightarrow> w | None \<Rightarrow> v) | _ \<Rightarrow> v)"

definition store_entry :: "constants \<Rightarrow> (string \<times> pyval) list \<Rightarrow> string \<times> pyval \<Rightarrow> (string \<times> pyval) list" where
  "store_entry c d kv = dict_set d (fst kv) (resolved c (snd kv))"

text \<open>\<open>const_expr\<close> and \<open>value\<close>: \<open>self._get_value(children[0])\<close>.\<close>

definition const_expr :: "constants \<Rightarrow> node \<Rightarrow> error + pyval" where
  "const_expr c child = get_value c child"

definition "value" :: "constants \<Rightarrow> node \<Rightarrow> error + pyval" where
  "value c child = get_value c child"

text \<open>
  \<open>const\<close>: evaluates \<open>children[1]\<close> once more, stores it under the name in
  \<open>self.constants\<close> and returns the tuple \<open>('const', name, value)\<close>.  The result is the
  tuple together with the updated table.
\<close>

definition const :: "constants \<Rightarrow> string \<Rightarrow> node \<Rightarrow> error + (pyval \<times> constants)" where
  "const c name raw_value =
     (case get_value c raw_value of
        Inl e \<Rightarrow> Inl e
      | Inr v \<Rightarrow> Inr (PTuple [PStr ''const'', PStr name, v], c(name \<mapsto> v)))"

section \<open>The terminals of GRAMMAR and Lark's contextual lexer\<close>

text \<open>
  The terminals of the grammar: the keyword_terminals and punctuation written as strings in the
  rules, \<open>CNAME\<close>, \<open>T_SIGNED_NUMBER\<close>, and the end of the input.  The ignored terminals
  are \<open>WS\<close>, \<open>![^\n]*\<close> and \<open>\/#.*?#\/\<close>.
\<close>

datatype terminal =
    T_CONST | T_TABLE | T_LEN | T_ABS | T_CNAME | T_SIGNED_NUMBER
  | T_LPAR | T_RPAR | T_LSQB | T_RSQB | T_COMMA | T_EQUAL | T_VBAR | T_PLUS | T_MINUS | T_STAR | T_SLASH
  | T_END

type_synonym token = "terminal \<times> string"

definition newline :: char where
  "newline = CHR 0x0A"

text \<open>\<open>WS\<close> of Lark's common grammar: \<open>[ \t\f\r\n]+\<close>.\<close>

definition is_ws :: "char \<Rightarrow> bool" where
  "is_ws ch = (ch = CHR '' '' \<or> ch = CHR 0x09 \<or> ch = CHR 0x0C \<or> ch = CHR 0x0D \<or> ch = CHR 0x0A)"

definition is_lower :: "char \<Rightarrow> bool" where
  "is_lower ch = (97 \<le> (of_char ch :: nat) \<and> (of_char ch :: nat) \<le> 122)"

text \<open>The characters after the first one of a \<open>CNAME\<close>, \<open>[a-z0-9_]\<close>.\<close>

definition is_cname_char :: "char \<Rightarrow> bool" where
  "is_cname_char ch = (is_lower ch \<or> is_digit ch \<or> ch = CHR ''_'')"

text \<open>
  The rest of \<open>.*?#\/\<close> after the opening \<open>/#\<close>: the text behind the first \<open>#/\<close>,
  where \<open>.\<close> matches every character but the newline (the pattern has no \<open>s\<close> flag),
  so no match across a line end.
\<close>

fun comment_end :: "string \<Rightarrow> string option" where
  "comment_end [] = None"
| "comment_end (ch # cs) =
     (if ch = CHR ''#'' \<and> (case cs of [] \<Rightarrow> False | d # _ \<Rightarrow> d = CHR ''/'') then Some (tl cs)
      else if ch = newline then None
      else comment_end cs)"

definition block_comment :: "string \<Rightarrow> string option" where
  "block_comment s =
     (case s of
        a # b # cs \<Rightarrow> if a = CHR ''/'' \<and> b = CHR ''#'' then comment_end cs else None
      | _ \<Rightarrow> None)"

lemma comment_end_shorter: "comment_end s = Some r \<Longrightarrow> length r < length s"
proof (induction s)
  case Nil
  then show ?case by simp
next
  case (Cons ch cs)
  then show ?case
    by (cases cs) (auto split: if_splits)
qed

lemma block_comment_shorter: "block_comment s = Some r \<Longrightarrow> length r < length s"
  unfolding block_comment_def
  by (auto split: list.splits if_splits dest: comment_end_shorter)

text \<open>The text from the first position where no ignored terminal matches.\<close>

function skip_ignored :: "string \<Rightarrow> string" where
  "skip_ignored s =
     (case s of
        [] \<Rightarrow> []
      | ch # cs \<Rightarrow>
          if is_ws ch then skip_ignored (dropWhile is_ws cs)
          else if ch = CHR ''!'' then skip_ignored (dropWhile (\<lambda>x. x \<noteq> newline) cs)
          else (case block_comment s of Some r \<Rightarrow> skip_ignored r | None \<Rightarrow> s))"
  by pat_completeness auto

termination
proof (relation "measure length")
  show "wf (measure length)" by simp
next
  fix s :: string and ch cs
  assume "s = ch # cs"
  then show "(dropWhile is_ws cs, s) \<in> measure length"
    using length_dropWhile_le [of is_ws cs] by simp
next
  fix s :: string and ch cs
  assume "s = ch # cs"
  then show "(dropWhile (\<lambda>x. x \<noteq> newline) cs, s) \<in> measure length"
    using length_dropWhile_le [of "\<lambda>x. x \<noteq> newline" cs] by simp
next
  fix s :: string and r
  assume "block_comment s = Some r"
  then show "(r, s) \<in> measure length"
    by (simp add: block_comment_shorter)
qed

declare skip_ignored.simps [simp del]

text \<open>
  \<open>_EXP\<close> of Lark's common grammar at the head of a text: \<open>e\<close> or \<open>E\<close>, an optional
  sign and at least one digit.  The result is the matched text and the rest.
\<close>

definition match_exp :: "string \<Rightarrow> (string \<times> string) option" where
  "match_exp s =
     (case s of
        [] \<Rightarrow> None
      | ch # cs \<Rightarrow>
          if ch = CHR ''e'' \<or> ch = CHR ''E'' then
            (let sg = (case cs of [] \<Rightarrow> [] | d # _ \<Rightarrow> if d = CHR ''+'' \<or> d = CHR ''-'' then [d] else []);
                 r = drop (length sg) cs;
                 ds = takeWhile is_digit r
             in if ds = [] then None else Some (ch # sg @ ds, dropWhile is_digit r))
          else None)"

definition opt_exp :: "string \<Rightarrow> string \<times> string" where
  "opt_exp s = (case match_exp s of Some p \<Rightarrow> p | None \<Rightarrow> ([], s))"

text \<open>
  \<open>NUMBER: FLOAT | INT\<close> with \<open>FLOAT: INT _EXP | DECIMAL _EXP?\<close> and
  \<open>DECIMAL: INT "." INT? | "." INT\<close>, the alternatives tried in this order.
\<close>

definition match_number :: "string \<Rightarrow> (string \<times> string) option" where
  "match_number s =
     (let ds = takeWhile is_digit s; r = dropWhile is_digit s in
      if ds \<noteq> [] then
        (case match_exp r of
           Some (ex, r') \<Rightarrow> Some (ds @ ex, r')
         | None \<Rightarrow>
             (case r of
                [] \<Rightarrow> Some (ds, r)
              | ch # cs \<Rightarrow>
                  if ch = CHR ''.'' then
                    (case opt_exp (dropWhile is_digit cs) of
                       (ex, r') \<Rightarrow> Some (ds @ [ch] @ takeWhile is_digit cs @ ex, r'))
                  else Some (ds, r)))
      else
        (case s of
           [] \<Rightarrow> None
         | ch # cs \<Rightarrow>
             if ch = CHR ''.'' \<and> takeWhile is_digit cs \<noteq> [] then
               (case opt_exp (dropWhile is_digit cs) of
                  (ex, r') \<Rightarrow> Some ([ch] @ takeWhile is_digit cs @ ex, r'))
             else None))"

text \<open>\<open>SIGNED_NUMBER: ["+"|"-"] NUMBER\<close>.\<close>

definition match_signed_number :: "string \<Rightarrow> (string \<times> string) option" where
  "match_signed_number s =
     (case s of
        [] \<Rightarrow> None
      | ch # cs \<Rightarrow>
          if ch = CHR ''+'' \<or> ch = CHR ''-'' then
            (case match_number cs of Some (lx, r) \<Rightarrow> Some (ch # lx, r) | None \<Rightarrow> None)
          else match_number s)"

text \<open>The terminals written as strings in the rules.\<close>

definition keyword_terminals :: "(terminal \<times> string) list" where
  "keyword_terminals = [(T_CONST, ''const''), (T_TABLE, ''table''), (T_ABS, ''abs''), (T_LEN, ''len'')]"

definition punctuation :: "(terminal \<times> string) list" where
  "punctuation =
     [(T_LPAR, ''(''), (T_RPAR, '')''), (T_LSQB, ''[''), (T_RSQB, '']''), (T_COMMA, '',''), (T_EQUAL, ''=''),
      (T_VBAR, ''|''), (T_PLUS, ''+''), (T_MINUS, ''-''), (T_STAR, ''*''), (T_SLASH, ''/'')]"

definition is_prefix :: "string \<Rightarrow> string \<Rightarrow> bool" where
  "is_prefix p s = (take (length p) s = p)"

text \<open>The first string terminal of a table that is accepted and is a prefix of the text.\<close>

fun match_literal :: "terminal list \<Rightarrow> (terminal \<times> string) list \<Rightarrow> string \<Rightarrow> (token \<times> string) option" where
  "match_literal acc [] s = None"
| "match_literal acc ((t, lit) # ts) s =
     (if t \<in> set acc \<and> is_prefix lit s then Some ((t, lit), drop (length lit) s)
      else match_literal acc ts s)"

text \<open>
  \<open>CNAME\<close> at the head of a text.  A keyword that is accepted in the same parser
  state and equals the whole match takes the token over from \<open>T_CNAME\<close> (Lark embeds such
  string terminals in the regular expression they match).
\<close>

definition match_cname :: "terminal list \<Rightarrow> string \<Rightarrow> (token \<times> string) option" where
  "match_cname acc s =
     (case s of
        [] \<Rightarrow> None
      | ch # cs \<Rightarrow>
          if is_lower ch then
            (let w = ch # takeWhile is_cname_char cs; r = dropWhile is_cname_char cs in
             case filter (\<lambda>(t, lit). t \<in> set acc \<and> lit = w) keyword_terminals of
               (t, lit) # _ \<Rightarrow> Some ((t, w), r)
             | [] \<Rightarrow> Some ((T_CNAME, w), r))
          else None)"

text \<open>
  One step of the contextual lexer in a parser state that accepts the terminals
  \<open>acc\<close>: the ignored terminals are skipped, then the accepted terminals are tried,
  the regular expressions before the strings, the longer strings first.  At the end of
  the text the parser is fed \<open>$T_END\<close>.  A text that starts with no accepted terminal
  raises a \<open>LarkError\<close>.
\<close>

definition next_token :: "terminal list \<Rightarrow> string \<Rightarrow> error + (token \<times> string)" where
  "next_token acc src =
     (let s = skip_ignored src in
      if s = [] then Inr ((T_END, []), [])
      else
        (case (if T_CNAME \<in> set acc then match_cname acc s else None) of
           Some r \<Rightarrow> Inr r
         | None \<Rightarrow>
             (case (if T_SIGNED_NUMBER \<in> set acc then match_signed_number s else None) of
                Some (lx, r) \<Rightarrow> Inr ((T_SIGNED_NUMBER, lx), r)
              | None \<Rightarrow>
                  (case match_literal acc (keyword_terminals @ punctuation) s of
                     Some r \<Rightarrow> Inr r
                   | None \<Rightarrow> Inl LarkError))))"

section \<open>Lark's LALR parser with the transformer attached\<close>

text \<open>
  \<open>Lark(GRAMMAR, parser='lalr', transformer=ConfigTransformer())\<close> calls the method
  of a rule at the moment the parser reduces by it, on the children already
  transformed, and builds a \<open>Tree\<close> where the transformer has no method.  A token
  written as a string in a rule is filtered out of the children; \<open>CNAME\<close> goes through
  the method \<open>CNAME\<close> and becomes a \<open>str\<close>.

  The parser is modelled by recursive descent over the text with one token of
  lookahead.  The lookahead is read in the parser state reached by the last shift, with
  the terminals that state accepts; a reduction, and so a callback, happens after its
  lookahead was read.  The recursion is bounded by fuel: \<open>None\<close> is "out of fuel".
\<close>

type_synonym 'a parse = "(error + 'a) option"

fun bind :: "'a parse \<Rightarrow> ('a \<Rightarrow> 'b parse) \<Rightarrow> 'b parse" where
  "bind None f = None"
| "bind (Some (Inl e)) f = Some (Inl e)"
| "bind (Some (Inr x)) f = f x"

definition ret :: "'a \<Rightarrow> 'a parse" where
  "ret x = Some (Inr x)"

definition raise :: "error \<Rightarrow> 'a parse" where
  "raise e = Some (Inl e)"

definition callback :: "error + 'a \<Rightarrow> 'a parse" where
  "callback r = Some r"

definition lex :: "terminal list \<Rightarrow> string \<Rightarrow> (token \<times> string) parse" where
  "lex acc s = Some (next_token acc s)"

text \<open>The terminals that can start a \<open>value\<close>, and those that can start a \<open>factor\<close>.\<close>

definition value_start :: "terminal list" where
  "value_start = [T_SIGNED_NUMBER, T_LPAR, T_TABLE, T_VBAR, T_CNAME]"

definition factor_start :: "terminal list" where
  "factor_start = [T_SIGNED_NUMBER, T_CNAME, T_LPAR, T_LEN, T_ABS]"

text \<open>
  The lookaheads of the reductions to a \<open>value\<close> and to a \<open>factor\<close>.  The state after
  a \<open>SIGNED_NUMBER\<close> is one state for both uses of \<open>number\<close> and has both sets.
\<close>

definition value_follow :: "terminal list" where
  "value_follow = [T_CONST, T_LPAR, T_TABLE, T_COMMA, T_RPAR, T_RSQB]"

definition factor_follow :: "terminal list" where
  "factor_follow = [T_STAR, T_SLASH, T_PLUS, T_MINUS, T_VBAR, T_RPAR]"

definition number_follow :: "terminal list" where
  "number_follow = value_follow @ factor_follow"

definition item_start :: "terminal list" where
  "item_start = [T_CONST, T_LPAR, T_TABLE]"

text \<open>
  Lark's option \<open>maybe_placeholders\<close>, which the call leaves at its default: an
  unmatched \<open>[...]\<close> leaves \<open>None\<close> in the children, one for the \<open>value\<close> of
  \<open>[value ("," value)*]\<close>.
\<close>

definition maybe_placeholders :: bool where
  "maybe_placeholders = True"

text \<open>
  The rules \<open>expr\<close>, \<open>term\<close>, \<open>factor\<close> and \<open>function\<close>.  They build trees and
  evaluate nothing; the children of \<open>function\<close> are the tree of its \<open>expr\<close> alone,
  since \<open>"len"\<close>, \<open>"abs"\<close> and the parentheses are filtered out.  Each rule takes the
  parser of the rule nested in it as an argument.
\<close>

type_synonym tree_parser = "token \<Rightarrow> string \<Rightarrow> (node \<times> token \<times> string) parse"

definition parse_factor :: "tree_parser \<Rightarrow> tree_parser" where
  "parse_factor pe la rest =
     (if fst la = T_SIGNED_NUMBER then
        bind (lex number_follow rest) (\<lambda>(la1, r1).
        ret (Tree Factor [Leaf (number (snd la))], la1, r1))
      else if fst la = T_CNAME then
        bind (lex factor_follow rest) (\<lambda>(la1, r1).
        ret (Tree Factor [Leaf (PStr (snd la))], la1, r1))
      else if fst la = T_LPAR then
        bind (lex factor_start rest) (\<lambda>(la1, r1).
        bind (pe la1 r1) (\<lambda>(e, la2, r2).
        if fst la2 = T_RPAR then
          bind (lex factor_follow r2) (\<lambda>(la3, r3). ret (Tree Factor [e], la3, r3))
        else raise LarkError))
      else if fst la = T_LEN \<or> fst la = T_ABS then
        bind (lex [T_LPAR] rest) (\<lambda>(la1, r1).
        if fst la1 = T_LPAR then
          bind (lex factor_start r1) (\<lambda>(la2, r2).
          bind (pe la2 r2) (\<lambda>(e, la3, r3).
          if fst la3 = T_RPAR then
            bind (lex factor_follow r3) (\<lambda>(la4, r4).
            ret (Tree Factor [Tree Function [e]], la4, r4))
          else raise LarkError))
        else raise LarkError)
      else raise LarkError)"

primrec term_rest :: "tree_parser \<Rightarrow> nat \<Rightarrow> node \<Rightarrow> tree_parser" where
  "term_rest pf 0 left la rest = None"
| "term_rest pf (Suc n) left la rest =
     (if fst la = T_STAR \<or> fst la = T_SLASH then
        bind (lex factor_start rest) (\<lambda>(la1, r1).
        bind (pf la1 r1) (\<lambda>(f, la2, r2).
        term_rest pf n (Tree (if fst la = T_STAR then Mul else Div) [left, f]) la2 r2))
      else ret (left, la, rest))"

definition parse_term :: "tree_parser \<Rightarrow> nat \<Rightarrow> tree_parser" where
  "parse_term pf n la rest =
     bind (pf la rest) (\<lambda>(f, la1, r1). term_rest pf n (Tree Term [f]) la1 r1)"

primrec expr_rest :: "tree_parser \<Rightarrow> nat \<Rightarrow> node \<Rightarrow> tree_parser" where
  "expr_rest pt 0 left la rest = None"
| "expr_rest pt (Suc n) left la rest =
     (if fst la = T_PLUS \<or> fst la = T_MINUS then
        bind (lex factor_start rest) (\<lambda>(la1, r1).
        bind (pt la1 r1) (\<lambda>(t, la2, r2).
        expr_rest pt n (Tree (if fst la = T_PLUS then Add else Sub) [left, t]) la2 r2))
      else ret (left, la, rest))"

primrec parse_expr :: "nat \<Rightarrow> tree_parser" where
  "parse_expr 0 la rest = None"
| "parse_expr (Suc n) la rest =
     bind (parse_term (parse_factor (parse_expr n)) n la rest) (\<lambda>(t, la1, r1).
     expr_rest (parse_term (parse_factor (parse_expr n)) n) n (Tree Expr [t]) la1 r1)"

text \<open>
  The rules \<open>value\<close>, \<open>array\<close>, \<open>dict\<close>, \<open>dict_entry\<close> and \<open>const_expr\<close>, each
  followed by its callback under the constant table of the moment.  After the closing
  \<open>|\<close> of a \<open>const_expr\<close> the lookahead is read first, then \<open>const_expr\<close> evaluates
  the tree.
\<close>

type_synonym value_parser = "constants \<Rightarrow> token \<Rightarrow> string \<Rightarrow> (pyval \<times> token \<times> string) parse"

primrec array_rest :: "value_parser \<Rightarrow> nat \<Rightarrow> constants \<Rightarrow> node list \<Rightarrow> token \<Rightarrow> string \<Rightarrow> (pyval \<times> token \<times> string) parse" where
  "array_rest pv 0 c items la rest = None"
| "array_rest pv (Suc n) c items la rest =
     (if fst la = T_COMMA then
        bind (lex value_start rest) (\<lambda>(la1, r1).
        bind (pv c la1 r1) (\<lambda>(v, la2, r2).
        array_rest pv n c (items @ [Leaf v]) la2 r2))
      else if fst la = T_RPAR then
        bind (lex value_follow rest) (\<lambda>(la1, r1).
        bind (callback (array c items)) (\<lambda>a. ret (a, la1, r1)))
      else raise LarkError)"

definition parse_array :: "value_parser \<Rightarrow> nat \<Rightarrow> constants \<Rightarrow> string \<Rightarrow> (pyval \<times> token \<times> string) parse" where
  "parse_array pv n c rest =
     bind (lex (value_start @ [T_RPAR]) rest) (\<lambda>(la1, r1).
     if fst la1 = T_RPAR then
       bind (lex value_follow r1) (\<lambda>(la2, r2).
       bind (callback (array c (if maybe_placeholders then [Leaf PNone] else []))) (\<lambda>a.
       ret (a, la2, r2)))
     else
       bind (pv c la1 r1) (\<lambda>(v, la2, r2). array_rest pv n c [Leaf v] la2 r2))"

primrec dict_entries :: "value_parser \<Rightarrow> nat \<Rightarrow> constants \<Rightarrow> (string \<times> pyval) list \<Rightarrow> token \<Rightarrow> string \<Rightarrow> (pyval \<times> token \<times> string) parse" where
  "dict_entries pv 0 c items la rest = None"
| "dict_entries pv (Suc n) c items la rest =
     (if fst la = T_CNAME then
        bind (lex [T_EQUAL] rest) (\<lambda>(la1, r1).
        if fst la1 = T_EQUAL then
          bind (lex value_start r1) (\<lambda>(la2, r2).
          bind (pv c la2 r2) (\<lambda>(v, la3, r3).
          if fst la3 = T_COMMA then
            bind (lex [T_CNAME] r3) (\<lambda>(la4, r4).
            dict_entries pv n c (items @ [dict_entry (snd la) v]) la4 r4)
          else if fst la3 = T_RSQB then
            bind (lex [T_RPAR] r3) (\<lambda>(la4, r4).
            if fst la4 = T_RPAR then
              bind (lex value_follow r4) (\<lambda>(la5, r5).
              bind (callback (dict c (items @ [dict_entry (snd la) v]))) (\<lambda>d.
              ret (d, la5, r5)))
            else raise LarkError)
          else raise LarkError))
        else raise LarkError)
      else raise LarkError)"

definition parse_dict :: "value_parser \<Rightarrow> nat \<Rightarrow> constants \<Rightarrow> string \<Rightarrow> (pyval \<times> token \<times> string) parse" where
  "parse_dict pv n c rest =
     bind (lex [T_LPAR] rest) (\<lambda>(la1, r1).
     if fst la1 = T_LPAR then
       bind (lex [T_LSQB] r1) (\<lambda>(la2, r2).
       if fst la2 = T_LSQB then
         bind (lex [T_CNAME] r2) (\<lambda>(la3, r3). dict_entries pv n c [] la3 r3)
       else raise LarkError)
     else raise LarkError)"

primrec parse_value :: "nat \<Rightarrow> value_parser" where
  "parse_value 0 c la rest = None"
| "parse_value (Suc n) c la rest =
     (if fst la = T_SIGNED_NUMBER then
        bind (lex number_follow rest) (\<lambda>(la1, r1).
        bind (callback (value c (Leaf (number (snd la))))) (\<lambda>v. ret (v, la1, r1)))
      else if fst la = T_CNAME then
        bind (lex value_follow rest) (\<lambda>(la1, r1).
        bind (callback (value c (Leaf (PStr (snd la))))) (\<lambda>v. ret (v, la1, r1)))
      else if fst la = T_LPAR then
        bind (parse_array (parse_value n) n c rest) (\<lambda>(a, la1, r1).
        bind (callback (value c (Leaf a))) (\<lambda>v. ret (v, la1, r1)))
      else if fst la = T_TABLE then
        bind (parse_dict (parse_value n) n c rest) (\<lambda>(d, la1, r1).
        bind (callback (value c (Leaf d))) (\<lambda>v. ret (v, la1, r1)))
      else if fst la = T_VBAR then
        bind (lex factor_start rest) (\<lambda>(la1, r1).
        bind (parse_expr n la1 r1) (\<lambda>(e, la2, r2).
        if fst la2 = T_VBAR then
          bind (lex value_follow r2) (\<lambda>(la3, r3).
          bind (callback (const_expr c e)) (\<lambda>x.
          bind (callback (value c (Leaf x))) (\<lambda>v. ret (v, la3, r3))))
        else raise LarkError))
      else raise LarkError)"

text \<open>
  The rules \<open>start\<close>, \<open>item\<close> and \<open>const\<close>: the items in document order, each
  \<open>const\<close> extending the constant table before the next item is read.  \<open>item\<close>
  returns its child, \<open>start\<close> returns the list of items.
\<close>

primrec parse_items :: "nat \<Rightarrow> constants \<Rightarrow> pyval list \<Rightarrow> token \<Rightarrow> string \<Rightarrow> (pyval list) parse" where
  "parse_items 0 c items la rest = None"
| "parse_items (Suc n) c items la rest =
     (if fst la = T_END then ret items
      else if fst la = T_CONST then
        bind (lex [T_CNAME] rest) (\<lambda>(la1, r1).
        if fst la1 = T_CNAME then
          bind (lex [T_EQUAL] r1) (\<lambda>(la2, r2).
          if fst la2 = T_EQUAL then
            bind (lex value_start r2) (\<lambda>(la3, r3).
            bind (parse_value n c la3 r3) (\<lambda>(v, la4, r4).
            if fst la4 \<in> set (T_END # item_start) then
              bind (callback (const c (snd la1) (Leaf v))) (\<lambda>(t, c').
              parse_items n c' (items @ [t]) la4 r4)
            else raise LarkError))
          else raise LarkError)
        else raise LarkError)
      else if fst la = T_LPAR then
        bind (parse_array (parse_value n) n c rest) (\<lambda>(a, la1, r1).
        if fst la1 \<in> set (T_END # item_start) then parse_items n c (items @ [a]) la1 r1
        else raise LarkError)
      else if fst la = T_TABLE then
        bind (parse_dict (parse_value n) n c rest) (\<lambda>(d, la1, r1).
        if fst la1 \<in> set (T_END # item_start) then parse_items n c (items @ [d]) la1 r1
        else raise LarkError)
      else raise LarkError)"

text \<open>
  \<open>parser.parse(source)\<close> with a fresh transformer, whose constant table is empty.
  Every level of the descent and every round of a repetition reads at least one
  character, so the length of the text bounds the fuel that is needed.
\<close>

definition parse :: "string \<Rightarrow> (pyval list) parse" where
  "parse source =
     bind (lex item_start source) (\<lambda>(la, rest).
     parse_items (Suc (length source)) Map.empty [] la rest)"

section \<open>The serializer and main\<close>

text \<open>
  An \<open>xml.etree.ElementTree\<close> element: tag, attributes, text and children.
\<close>

datatype xml = Element string "(string \<times> string) list" "string option" "xml list"

text \<open>
  The element \<open>value_to_xml\<close> creates for a value.  \<open>str(value)\<close>, which gives the
  text of a number, is a parameter \<open>pystr\<close>.  The branches are tried in the order of
  the source: number, list, dict, a tuple that starts with \<open>'const'\<close>, \<open>str\<close>, and
  the \<open>else\<close> branch for everything left.
\<close>

fun to_element :: "(pyval \<Rightarrow> string) \<Rightarrow> pyval \<Rightarrow> xml" where
  "to_element pystr (PInt i) =
     Element ''number'' [(''type'', ''integer'')] (Some (pystr (PInt i))) []"
| "to_element pystr (PFloat x) =
     Element ''number'' [(''type'', ''float'')] (Some (pystr (PFloat x))) []"
| "to_element pystr (PList items) =
     Element ''array'' [] None (map (to_element pystr) items)"
| "to_element pystr (PDict d) =
     Element ''dict'' [] None
       (map (\<lambda>kv. Element ''entry'' [(''key'', fst kv)] None [to_element pystr (snd kv)]) d)"
| "to_element pystr (PTuple [PStr tg, PStr name, v]) =
     (if tg = ''const'' then Element ''const'' [(''name'', name)] None [to_element pystr v]
      else Element ''value'' [] (Some (pystr (PTuple [PStr tg, PStr name, v]))) [])"
| "to_element pystr (PStr s) = Element ''string'' [] (Some s) []"
| "to_element pystr v = Element ''value'' [] (Some (pystr v)) []"

text \<open>\<open>value_to_xml(value, parent)\<close>: the element becomes the last child of \<open>parent\<close>.\<close>

fun value_to_xml :: "(pyval \<Rightarrow> string) \<Rightarrow> pyval \<Rightarrow> xml \<Rightarrow> xml" where
  "value_to_xml pystr v (Element tg attrs txt children) =
     Element tg attrs txt (children @ [to_element pystr v])"

text \<open>What \<open>main\<close> prints before it ends.\<close>

datatype message =
    Silent | InputNotFound | SyntaxMessage | SemanticMessage | RuntimeMessage | TypeMessage
  | Traceback

text \<open>The \<open>except\<close> clauses of \<open>main\<close>; an exception none of them names ends in a traceback.\<close>

fun report :: "error \<Rightarrow> message" where
  "report LarkError = SyntaxMessage"
| "report ValueError = SemanticMessage"
| "report ZeroDivisionError = RuntimeMessage"
| "report TypeError = TypeMessage"
| "report IndexError = Traceback"
| "report OverflowError = Traceback"

text \<open>
  \<open>main\<close> on a file system (a map from paths to contents) with the paths of
  \<open>--input\<close> and \<open>--output\<close>: the exit status, the message and the file system
  afterwards.  \<open>prettify_xml\<close> is a parameter.  The output file is opened only after
  parsing and serializing have succeeded; every failure ends with status 1.
\<close>

definition main :: "(pyval \<Rightarrow> string) \<Rightarrow> (xml \<Rightarrow> string) \<Rightarrow> (string \<rightharpoonup> string) \<Rightarrow> string \<Rightarrow> string
    \<Rightarrow> (nat \<times> message \<times> (string \<rightharpoonup> string)) option" where
  "main pystr prettify_xml fs input output =
     (case fs input of
        None \<Rightarrow> Some (1, InputNotFound, fs)
      | Some source \<Rightarrow>
          (case parse source of
             None \<Rightarrow> None
           | Some (Inl e) \<Rightarrow> Some (1, report e, fs)
           | Some (Inr result) \<Rightarrow>
               (let root = fold (value_to_xml pystr) result (Element ''config'' [] None [])
                in Some (0, Silent, fs(output \<mapsto> prettify_xml root)))))"

section \<open>Properties of main\<close>

lemma main_failure:
  assumes "fs input = Some source" and "parse source = Some (Inl e)"
  shows "main pystr prettify_xml fs input output = Some (1, report e, fs)"
  using assms by (simp add: main_def)


section \<open>Properties of binary arithmetic\<close>

lemma eval_binary_op_numbers:
  assumes "get_value c l = Inr a" and "get_value c r = Inr b"
    and "is_number a" and "is_number b"
  shows "eval_binary_op c [l, r] opr = op_func opr a b"
  using assms by simp

lemma eval_binary_op_mismatch:
  assumes "get_value c l = Inr a" and "get_value c r = Inr b"
    and "\<not> (is_number a \<and> is_number b)"
  shows "eval_binary_op c [l, r] opr = Inl TypeError"
  using assms by auto

lemma bit_length_zero:
  assumes "n \<le> 0"
  shows "bit_length n = 0"
  using assms by (subst bit_length.simps) simp

lemma bit_length_step:
  assumes "0 < n"
  shows "bit_length n = 1 + bit_length (n div 2)"
  using assms by (subst bit_length.simps) simp

lemma bit_length_pos:
  assumes "1 \<le> n"
  shows "1 \<le> bit_length n"
  using assms
proof (induction n rule: bit_length.induct)
  case (1 n)
  have "bit_length n = 1 + bit_length (n div 2)"
    using 1(2) by (intro bit_length_step) simp
  moreover have "0 \<le> bit_length (n div 2)"
  proof (cases "1 \<le> n div 2")
    case True
    then have "1 \<le> bit_length (n div 2)"
      using 1 by simp
    then show ?thesis by simp
  next
    case False
    then have "bit_length (n div 2) = 0"
      by (intro bit_length_zero) simp
    then show ?thesis by simp
  qed
  ultimately show ?case by simp
qed

lemma bit_length_lower:
  assumes "1 \<le> n"
  shows "2 ^ nat (bit_length n - 1) \<le> n"
  using assms
proof (induction n rule: bit_length.induct)
  case (1 n)
  have step: "bit_length n = 1 + bit_length (n div 2)"
    using 1(2) by (intro bit_length_step) simp
  show ?case
  proof (cases "1 \<le> n div 2")
    case True
    then have ih: "2 ^ nat (bit_length (n div 2) - 1) \<le> n div 2"
      using 1 by simp
    have "1 \<le> bit_length (n div 2)"
      using True by (rule bit_length_pos)
    then have "nat (bit_length (n div 2)) = Suc (nat (bit_length (n div 2) - 1))"
      by simp
    then have "(2::int) ^ nat (bit_length (n div 2)) = 2 * 2 ^ nat (bit_length (n div 2) - 1)"
      by simp
    also have "\<dots> \<le> 2 * (n div 2)"
      using ih by simp
    also have "\<dots> \<le> n"
      by simp
    finally show ?thesis
      using step by simp
  next
    case False
    then have "bit_length (n div 2) = 0"
      by (intro bit_length_zero) simp
    then show ?thesis
      using step 1(2) by simp
  qed
qed

lemma log2_floor_int:
  assumes "1 \<le> n"
  shows "log2_floor n 1 = bit_length n - 1"
proof -
  have one: "bit_length 1 = 1"
    using bit_length_step [of 1] bit_length_zero [of 0] by simp
  have "0 \<le> bit_length n - 1"
    using bit_length_pos [OF assms] by simp
  moreover have "2 ^ nat (bit_length n - 1) \<le> n"
    using assms by (rule bit_length_lower)
  ultimately show ?thesis
    by (simp add: log2_floor_def one Let_def)
qed

lemma round_half_even_lower: "n div d \<le> round_half_even n d"
  by (simp add: round_half_even_def Let_def)

lemma round_ratio_int_pos:
  assumes "1 \<le> n"
  shows "0 < round_ratio n 1"
proof -
  define e where "e = bit_length n - 1"
  define q where "q = max e (- 1022) - 52"
  have e: "0 \<le> e" and low: "2 ^ nat e \<le> n"
    using bit_length_pos [OF assms] bit_length_lower [OF assms] by (simp_all add: e_def)
  have rr: "round_ratio n 1 =
      (if 0 \<le> q then of_int (round_half_even n (2 ^ nat q) * 2 ^ nat q)
       else of_int (round_half_even (n * 2 ^ nat (- q)) 1) / of_int (2 ^ nat (- q)))"
    by (simp add: round_ratio_def log2_floor_int [OF assms] Let_def e_def q_def)
  show ?thesis
  proof (cases "0 \<le> q")
    case True
    then have "nat q \<le> nat e"
      using e by (simp add: q_def)
    then have "(2::int) ^ nat q \<le> 2 ^ nat e"
      by (intro power_increasing) simp_all
    then have "(2::int) ^ nat q \<le> n"
      using low by (rule order_trans)
    then have "0 < n div 2 ^ nat q"
      by (simp add: pos_imp_zdiv_pos_iff)
    then have "0 < round_half_even n (2 ^ nat q)"
      using round_half_even_lower [of n "2 ^ nat q"] by simp
    then have "(0::rat) < of_int (round_half_even n (2 ^ nat q))"
      by simp
    then have "(0::rat) < of_int (round_half_even n (2 ^ nat q)) * 2 ^ nat q"
      by simp
    then show ?thesis
      using True by (simp add: rr)
  next
    case False
    have "round_half_even (n * 2 ^ nat (- q)) 1 = n * 2 ^ nat (- q)"
      by (simp add: round_half_even_def Let_def)
    moreover have "0 < n * 2 ^ nat (- q)"
      using assms by simp
    ultimately show ?thesis
      using False assms by (simp add: rr)
  qed
qed

lemma to_double_int_nonzero:
  assumes "n \<noteq> 0"
  shows "\<not> is_zero (to_double neg \<bar>n\<bar> 1)"
proof -
  have "1 \<le> \<bar>n\<bar>"
    using assms by simp
  then have "0 < round_ratio \<bar>n\<bar> 1"
    by (rule round_ratio_int_pos)
  then show ?thesis
    using assms by (simp add: to_double_def infinity_def Let_def)
qed

lemma dbl_limit_pos: "0 < dbl_limit"
  by (simp add: dbl_limit_def)

lemma quotient_in_range:
  assumes "\<bar>i\<bar> < dbl_limit" and "j \<noteq> 0"
  shows "\<not> dbl_overflow \<bar>i\<bar> \<bar>j\<bar>"
proof -
  have "1 \<le> \<bar>j\<bar>"
    using assms(2) by simp
  then have "dbl_limit * 1 \<le> dbl_limit * \<bar>j\<bar>"
    using dbl_limit_pos by (intro mult_left_mono) simp_all
  then show ?thesis
    using assms(1) by (simp add: dbl_overflow_def)
qed

lemma number_cases:
  assumes "is_number a"
  shows "(\<exists>i. a = PInt i) \<or> (\<exists>x. a = PFloat x)"
  using assms by (cases a) (simp_all add: is_number_def)

lemma to_float_in_range:
  assumes "is_number a" and "float_range a"
  shows "\<exists>x. to_float a = Inr x"
  using assms by (cases a) (simp_all add: is_number_def int_to_float_def dbl_overflow_def)

lemma to_float_cases:
  assumes "is_number a"
  shows "(\<exists>x. to_float a = Inr x) \<or> to_float a = Inl OverflowError"
  using assms by (cases a) (simp_all add: is_number_def int_to_float_def)

lemma to_float_nonzero:
  assumes "ne_zero b" and "to_float b = Inr y"
  shows "\<not> is_zero y"
proof (cases b)
  case (PInt j)
  then have "j \<noteq> 0" and "y = to_double (j < 0) \<bar>j\<bar> 1"
    using assms by (simp_all add: int_to_float_def split: if_splits)
  then show ?thesis
    by (simp add: to_double_int_nonzero)
qed (use assms in simp_all)

lemma true_div_kind:
  assumes "is_number a" and "is_number b" and "ne_zero b"
  shows "(\<exists>f. true_div a b = Inr (PFloat f)) \<or> true_div a b = Inl OverflowError"
proof -
  consider i j where "a = PInt i" "b = PInt j" | x where "a = PFloat x" | y where "b = PFloat y"
    using number_cases [OF assms(1)] number_cases [OF assms(2)] by auto
  then show ?thesis
  proof cases
    case 1
    then show ?thesis
      using assms(3) by simp
  next
    case 2
    have "(\<exists>y. to_float b = Inr y \<and> \<not> is_zero y) \<or> to_float b = Inl OverflowError"
      using to_float_cases [OF assms(2)] to_float_nonzero [OF assms(3)] by auto
    then show ?thesis
      using 2 by auto
  next
    case 3
    have b: "\<not> is_zero y"
      using assms(3) 3 by simp
    have "(\<exists>x. to_float a = Inr x) \<or> to_float a = Inl OverflowError"
      using assms(1) by (rule to_float_cases)
    then show ?thesis
      using 3 b by (cases a) auto
  qed
qed

lemma true_div_in_range:
  assumes "is_number a" and "is_number b" and "ne_zero b"
    and "float_range a" and "float_range b"
  shows "\<exists>f. true_div a b = Inr (PFloat f)"
proof -
  consider i j where "a = PInt i" "b = PInt j" | x where "a = PFloat x" | y where "b = PFloat y"
    using number_cases [OF assms(1)] number_cases [OF assms(2)] by auto
  then show ?thesis
  proof cases
    case 1
    then have "\<not> dbl_overflow \<bar>i\<bar> \<bar>j\<bar>"
      using assms(3,4) by (intro quotient_in_range) simp_all
    then show ?thesis
      using 1 assms(3) by simp
  next
    case 2
    obtain y where y: "to_float b = Inr y"
      using to_float_in_range [OF assms(2,5)] by (elim exE)
    then have "\<not> is_zero y"
      using assms(3) by (intro to_float_nonzero)
    then show ?thesis
      using 2 y by simp
  next
    case 3
    have b: "\<not> is_zero y"
      using assms(3) 3 by simp
    obtain x where "to_float a = Inr x"
      using to_float_in_range [OF assms(1,4)] by (elim exE)
    then show ?thesis
      using 3 b by (cases a) simp_all
  qed
qed

text \<open>
  C3 (amended): a division whose operands both evaluate to numbers, with a divisor that
  is not zero and every \<open>int\<close> operand within the range of a \<open>float\<close>, gives a \<open>float\<close>,
  also for two \<open>int\<close>s; without the condition on the range it gives a \<open>float\<close> or raises
  \<open>OverflowError\<close>; two \<open>float\<close>s give their IEEE 754 quotient; the serializer tags a
  \<open>float\<close> as \<open>float\<close>; and \<open>const x = |10 / 2|\<close> binds \<open>x\<close> to the float 5.0.
\<close>

theorem div_is_float:
  assumes "get_value c l = Inr a" and "get_value c r = Inr b"
    and "is_number a" and "is_number b" and "ne_zero b"
  shows "(float_range a \<and> float_range b \<longrightarrow>
            (\<exists>f. get_value c (Tree Div [l, r]) = Inr (PFloat f)))
    \<and> ((\<exists>f. get_value c (Tree Div [l, r]) = Inr (PFloat f))
        \<or> get_value c (Tree Div [l, r]) = Inl OverflowError)
    \<and> (a = PFloat x \<and> b = PFloat y \<longrightarrow> get_value c (Tree Div [l, r]) = Inr (PFloat (fdiv x y)))
    \<and> to_element pystr (PFloat f) =
        Element ''number'' [(''type'', ''float'')] (Some (pystr (PFloat f))) []
    \<and> parse ''const x = |10 / 2|'' = Some (Inr [PTuple [PStr ''const'', PStr ''x'', PFloat (Fin 5)]])"
proof -
  have "eval_binary_op c [l, r] OpDiv = op_func OpDiv a b"
    using assms(1-4) by (rule eval_binary_op_numbers)
  then have ev: "get_value c (Tree Div [l, r]) = true_div a b"
    using assms(5) by simp
  have range: "float_range a \<and> float_range b \<longrightarrow>
      (\<exists>f. get_value c (Tree Div [l, r]) = Inr (PFloat f))"
    unfolding ev using true_div_in_range [OF assms(3-5)] by simp
  have kind: "(\<exists>f. get_value c (Tree Div [l, r]) = Inr (PFloat f))
      \<or> get_value c (Tree Div [l, r]) = Inl OverflowError"
    unfolding ev using true_div_kind [OF assms(3-5)] by simp
  have floats: "a = PFloat x \<and> b = PFloat y \<longrightarrow>
      get_value c (Tree Div [l, r]) = Inr (PFloat (fdiv x y))"
    unfolding ev using assms(5) by auto
  have xml: "to_element pystr (PFloat f) =
      Element ''number'' [(''type'', ''float'')] (Some (pystr (PFloat f))) []"
    by simp
  have doc: "parse ''const x = |10 / 2|'' =
      Some (Inr [PTuple [PStr ''const'', PStr ''x'', PFloat (Fin 5)]])"
    by code_simp
  show ?thesis
    by (intro conjI) (fact range kind floats xml doc)+
qed

theorem div_is_float_witness:
  "get_value Map.empty (Leaf (PInt 10)) = Inr (PInt 10)
   \<and> get_value Map.empty (Leaf (PInt 2)) = Inr (PInt 2)
   \<and> is_number (PInt 10) \<and> is_number (PInt 2) \<and> ne_zero (PInt 2)
   \<and> float_range (PInt 10) \<and> float_range (PInt 2)
   \<and> (\<exists>f. get_value Map.empty (Tree Div [Leaf (PInt 10), Leaf (PInt 2)]) = Inr (PFloat f))"
proof -
  have l: "get_value Map.empty (Leaf (PInt 10)) = Inr (PInt 10)"
    and r: "get_value Map.empty (Leaf (PInt 2)) = Inr (PInt 2)"
    by simp_all
  have n: "is_number (PInt 10)" "is_number (PInt 2)"
    by (simp_all add: is_number_def)
  have z: "ne_zero (PInt 2)"
    by simp
  have fr: "float_range (PInt 10)" "float_range (PInt 2)"
    by (simp_all add: dbl_limit_def)
  have "float_range (PInt 10) \<and> float_range (PInt 2) \<longrightarrow>
      (\<exists>f. get_value Map.empty (Tree Div [Leaf (PInt 10), Leaf (PInt 2)]) = Inr (PFloat f))"
    by (rule conjunct1 [OF div_is_float [OF l r n z]])
  then have ex: "\<exists>f. get_value Map.empty (Tree Div [Leaf (PInt 10), Leaf (PInt 2)]) = Inr (PFloat f)"
    using fr by simp
  show ?thesis
    by (intro conjI) (fact l r n z fr ex)+
qed

text \<open>
  The \<open>int\<close>s of the literal \<open>1e155\<close> multiply to an \<open>int\<close> beyond the range of a
  \<open>float\<close>; its division by the \<open>int\<close> 1 raises \<open>OverflowError\<close>, which \<open>main\<close> does
  not catch.
\<close>

theorem div_of_huge_int:
  "number ''1e155'' = PInt 100000000000000000717623154091016830408061481189160311806712772146250661680488340128266606984576189330386573813296762136260081534229469225952733653677113344
   \<and> get_value Map.empty (Tree Mul [Leaf (PInt 100000000000000000717623154091016830408061481189160311806712772146250661680488340128266606984576189330386573813296762136260081534229469225952733653677113344), Leaf (PInt 100000000000000000717623154091016830408061481189160311806712772146250661680488340128266606984576189330386573813296762136260081534229469225952733653677113344)]) =
       Inr (PInt (100000000000000000717623154091016830408061481189160311806712772146250661680488340128266606984576189330386573813296762136260081534229469225952733653677113344 * 100000000000000000717623154091016830408061481189160311806712772146250661680488340128266606984576189330386573813296762136260081534229469225952733653677113344))
   \<and> is_number (PInt (100000000000000000717623154091016830408061481189160311806712772146250661680488340128266606984576189330386573813296762136260081534229469225952733653677113344 * 100000000000000000717623154091016830408061481189160311806712772146250661680488340128266606984576189330386573813296762136260081534229469225952733653677113344)) \<and> is_number (PInt 1) \<and> ne_zero (PInt 1)
   \<and> get_value Map.empty (Tree Div [Leaf (PInt (100000000000000000717623154091016830408061481189160311806712772146250661680488340128266606984576189330386573813296762136260081534229469225952733653677113344 * 100000000000000000717623154091016830408061481189160311806712772146250661680488340128266606984576189330386573813296762136260081534229469225952733653677113344)), Leaf (PInt 1)]) = Inl OverflowError
   \<and> parse ''const x = |1e155 * 1e155 / 1|'' = Some (Inl OverflowError)
   \<and> main (\<lambda>v. []) (\<lambda>x. []) (Map.empty(''in'' \<mapsto> ''const x = |1e155 * 1e155 / 1|'')) ''in'' ''out'' =
       Some (1, Traceback, Map.empty(''in'' \<mapsto> ''const x = |1e155 * 1e155 / 1|''))"
proof -
  have lit: "number ''1e155'' = PInt 100000000000000000717623154091016830408061481189160311806712772146250661680488340128266606984576189330386573813296762136260081534229469225952733653677113344"
    by code_simp
  have mul: "get_value Map.empty (Tree Mul [Leaf (PInt 100000000000000000717623154091016830408061481189160311806712772146250661680488340128266606984576189330386573813296762136260081534229469225952733653677113344), Leaf (PInt 100000000000000000717623154091016830408061481189160311806712772146250661680488340128266606984576189330386573813296762136260081534229469225952733653677113344)]) =
       Inr (PInt (100000000000000000717623154091016830408061481189160311806712772146250661680488340128266606984576189330386573813296762136260081534229469225952733653677113344 * 100000000000000000717623154091016830408061481189160311806712772146250661680488340128266606984576189330386573813296762136260081534229469225952733653677113344))"
    by (simp add: is_number_def)
  have num: "is_number (PInt (100000000000000000717623154091016830408061481189160311806712772146250661680488340128266606984576189330386573813296762136260081534229469225952733653677113344 * 100000000000000000717623154091016830408061481189160311806712772146250661680488340128266606984576189330386573813296762136260081534229469225952733653677113344))" "is_number (PInt 1)" "ne_zero (PInt 1)"
    by (simp_all add: is_number_def)
  have dv: "get_value Map.empty (Tree Div [Leaf (PInt (100000000000000000717623154091016830408061481189160311806712772146250661680488340128266606984576189330386573813296762136260081534229469225952733653677113344 * 100000000000000000717623154091016830408061481189160311806712772146250661680488340128266606984576189330386573813296762136260081534229469225952733653677113344)), Leaf (PInt 1)]) = Inl OverflowError"
    by code_simp
  have doc: "parse ''const x = |1e155 * 1e155 / 1|'' = Some (Inl OverflowError)"
    by code_simp
  have "main (\<lambda>v. []) (\<lambda>x. []) (Map.empty(''in'' \<mapsto> ''const x = |1e155 * 1e155 / 1|'')) ''in'' ''out'' =
       Some (1, report OverflowError, Map.empty(''in'' \<mapsto> ''const x = |1e155 * 1e155 / 1|''))"
    by (rule main_failure [OF _ doc]) simp
  then have run: "main (\<lambda>v. []) (\<lambda>x. []) (Map.empty(''in'' \<mapsto> ''const x = |1e155 * 1e155 / 1|'')) ''in'' ''out'' =
       Some (1, Traceback, Map.empty(''in'' \<mapsto> ''const x = |1e155 * 1e155 / 1|''))"
    by simp
  show ?thesis
    by (intro conjI) (fact lit mul num dv doc run)+
qed

lemma const_binds:
  assumes "get_value c raw = Inr v"
  shows "const c name raw = Inr (PTuple [PStr ''const'', PStr name, v], c(name \<mapsto> v))"
  using assms by (simp add: const_def)

lemma arith_in_range:
  assumes "is_number a" and "is_number b" and "(\<exists>x. a = PFloat x) \<or> (\<exists>x. b = PFloat x)"
    and "float_range a" and "float_range b"
  shows "\<exists>f. arith fi ff a b = Inr (PFloat f)"
proof -
  obtain x where x: "to_float a = Inr x"
    using to_float_in_range [OF assms(1,4)] by (elim exE)
  obtain y where y: "to_float b = Inr y"
    using to_float_in_range [OF assms(2,5)] by (elim exE)
  show ?thesis
    using assms(3) x y by (cases a; cases b) auto
qed

text \<open>
  C4 (amended): \<open>+\<close>, \<open>-\<close> and \<open>*\<close> on two \<open>int\<close>s give the exact \<open>int\<close>; when an
  operand is a \<open>float\<close> and the other one, if it is an \<open>int\<close>, is within the range of a
  \<open>float\<close>, they give a \<open>float\<close>, for two \<open>float\<close>s the IEEE 754 result; \<open>const\<close>
  stores the value under its name, where a later lookup finds it; and \<open>const a = 10\<close>
  followed by \<open>const b = |a * 2|\<close> binds \<open>b\<close> to the integer 20.
\<close>

theorem arith_promotion:
  assumes "get_value c l = Inr a" and "get_value c r = Inr b"
    and "is_number a" and "is_number b"
  shows "(a = PInt i \<and> b = PInt j \<longrightarrow>
            get_value c (Tree Add [l, r]) = Inr (PInt (i + j))
          \<and> get_value c (Tree Sub [l, r]) = Inr (PInt (i - j))
          \<and> get_value c (Tree Mul [l, r]) = Inr (PInt (i * j)))
       \<and> (((\<exists>x. a = PFloat x) \<or> (\<exists>x. b = PFloat x)) \<and> float_range a \<and> float_range b \<longrightarrow>
            (\<exists>f. get_value c (Tree Add [l, r]) = Inr (PFloat f))
          \<and> (\<exists>f. get_value c (Tree Sub [l, r]) = Inr (PFloat f))
          \<and> (\<exists>f. get_value c (Tree Mul [l, r]) = Inr (PFloat f)))
       \<and> (a = PFloat x \<and> b = PFloat y \<longrightarrow>
            get_value c (Tree Add [l, r]) = Inr (PFloat (fadd x y))
          \<and> get_value c (Tree Sub [l, r]) = Inr (PFloat (fsub x y))
          \<and> get_value c (Tree Mul [l, r]) = Inr (PFloat (fmul x y)))
       \<and> (\<exists>t. const c name l = Inr (t, c(name \<mapsto> a)))
       \<and> get_value (c(name \<mapsto> a)) (Leaf (PStr name)) = Inr a
       \<and> parse (''const a = 10'' @ [newline] @ ''const b = |a * 2|'') =
           Some (Inr [PTuple [PStr ''const'', PStr ''a'', PInt 10],
                      PTuple [PStr ''const'', PStr ''b'', PInt 20]])"
proof -
  have ev: "eval_binary_op c [l, r] opr = op_func opr a b" for opr
    using assms by (rule eval_binary_op_numbers)
  have gv: "get_value c (Tree Add [l, r]) = arith (+) fadd a b"
    "get_value c (Tree Sub [l, r]) = arith (-) fsub a b"
    "get_value c (Tree Mul [l, r]) = arith (*) fmul a b"
    using ev by simp_all
  have ints: "a = PInt i \<and> b = PInt j \<longrightarrow>
            get_value c (Tree Add [l, r]) = Inr (PInt (i + j))
          \<and> get_value c (Tree Sub [l, r]) = Inr (PInt (i - j))
          \<and> get_value c (Tree Mul [l, r]) = Inr (PInt (i * j))"
    using ev by simp
  have promote: "((\<exists>x. a = PFloat x) \<or> (\<exists>x. b = PFloat x)) \<and> float_range a \<and> float_range b \<longrightarrow>
            (\<exists>f. get_value c (Tree Add [l, r]) = Inr (PFloat f))
          \<and> (\<exists>f. get_value c (Tree Sub [l, r]) = Inr (PFloat f))
          \<and> (\<exists>f. get_value c (Tree Mul [l, r]) = Inr (PFloat f))"
    unfolding gv using arith_in_range [OF assms(3,4)] by simp
  have floats: "a = PFloat x \<and> b = PFloat y \<longrightarrow>
            get_value c (Tree Add [l, r]) = Inr (PFloat (fadd x y))
          \<and> get_value c (Tree Sub [l, r]) = Inr (PFloat (fsub x y))
          \<and> get_value c (Tree Mul [l, r]) = Inr (PFloat (fmul x y))"
    using ev by simp
  have bind: "\<exists>t. const c name l = Inr (t, c(name \<mapsto> a))"
    using const_binds [OF assms(1)] by (intro exI)
  have look: "get_value (c(name \<mapsto> a)) (Leaf (PStr name)) = Inr a"
    by simp
  have doc: "parse (''const a = 10'' @ [newline] @ ''const b = |a * 2|'') =
           Some (Inr [PTuple [PStr ''const'', PStr ''a'', PInt 10],
                      PTuple [PStr ''const'', PStr ''b'', PInt 20]])"
    by code_simp
  show ?thesis
    by (intro conjI) (fact ints promote floats bind look doc)+
qed

theorem arith_promotion_witness:
  "get_value Map.empty (Leaf (PInt 10)) = Inr (PInt 10)
   \<and> get_value Map.empty (Leaf (PFloat (Fin (3 / 2)))) = Inr (PFloat (Fin (3 / 2)))
   \<and> is_number (PInt 10) \<and> is_number (PFloat (Fin (3 / 2)))
   \<and> float_range (PInt 10) \<and> float_range (PFloat (Fin (3 / 2)))
   \<and> (\<exists>f. get_value Map.empty (Tree Mul [Leaf (PInt 10), Leaf (PFloat (Fin (3 / 2)))]) = Inr (PFloat f))
   \<and> get_value Map.empty (Tree Mul [Leaf (PInt 10), Leaf (PFloat (Fin (3 / 2)))]) = Inr (PFloat (Fin 15))"
proof -
  have l: "get_value Map.empty (Leaf (PInt 10)) = Inr (PInt 10)"
    and r: "get_value Map.empty (Leaf (PFloat (Fin (3 / 2)))) = Inr (PFloat (Fin (3 / 2)))"
    by simp_all
  have n: "is_number (PInt 10)" "is_number (PFloat (Fin (3 / 2)))"
    by (simp_all add: is_number_def)
  have fr: "float_range (PInt 10)" "float_range (PFloat (Fin (3 / 2)))"
    by (simp_all add: dbl_limit_def)
  have "((\<exists>x. PInt 10 = PFloat x) \<or> (\<exists>x. PFloat (Fin (3 / 2)) = PFloat x))
        \<and> float_range (PInt 10) \<and> float_range (PFloat (Fin (3 / 2))) \<longrightarrow>
            (\<exists>f. get_value Map.empty (Tree Add [Leaf (PInt 10), Leaf (PFloat (Fin (3 / 2)))]) = Inr (PFloat f))
          \<and> (\<exists>f. get_value Map.empty (Tree Sub [Leaf (PInt 10), Leaf (PFloat (Fin (3 / 2)))]) = Inr (PFloat f))
          \<and> (\<exists>f. get_value Map.empty (Tree Mul [Leaf (PInt 10), Leaf (PFloat (Fin (3 / 2)))]) = Inr (PFloat f))"
    by (rule conjunct1 [OF conjunct2 [OF arith_promotion [OF l r n]]])
  then have ex: "\<exists>f. get_value Map.empty (Tree Mul [Leaf (PInt 10), Leaf (PFloat (Fin (3 / 2)))]) = Inr (PFloat f)"
    using fr by simp
  have v: "get_value Map.empty (Tree Mul [Leaf (PInt 10), Leaf (PFloat (Fin (3 / 2)))]) = Inr (PFloat (Fin 15))"
    by code_simp
  show ?thesis
    by (intro conjI) (fact l r n fr ex v)+
qed

text \<open>
  The \<open>int\<close>s of the literal \<open>1e155\<close> multiply to an \<open>int\<close> beyond the range of a
  \<open>float\<close>; multiplying it by the \<open>float\<close> 1.5 raises \<open>OverflowError\<close> and gives no
  \<open>float\<close>.
\<close>

theorem mul_of_huge_int_and_float:
  "number ''1.5'' = PFloat (Fin (3 / 2))
   \<and> get_value Map.empty (Tree Mul [Leaf (number ''1e155''), Leaf (number ''1e155'')]) =
       Inr (PInt (100000000000000000717623154091016830408061481189160311806712772146250661680488340128266606984576189330386573813296762136260081534229469225952733653677113344 * 100000000000000000717623154091016830408061481189160311806712772146250661680488340128266606984576189330386573813296762136260081534229469225952733653677113344))
   \<and> is_number (PInt (100000000000000000717623154091016830408061481189160311806712772146250661680488340128266606984576189330386573813296762136260081534229469225952733653677113344 * 100000000000000000717623154091016830408061481189160311806712772146250661680488340128266606984576189330386573813296762136260081534229469225952733653677113344)) \<and> is_number (PFloat (Fin (3 / 2)))
   \<and> get_value Map.empty (Tree Mul [Leaf (PInt (100000000000000000717623154091016830408061481189160311806712772146250661680488340128266606984576189330386573813296762136260081534229469225952733653677113344 * 100000000000000000717623154091016830408061481189160311806712772146250661680488340128266606984576189330386573813296762136260081534229469225952733653677113344)), Leaf (PFloat (Fin (3 / 2)))]) =
       Inl OverflowError
   \<and> parse ''const x = |1e155 * 1e155 * 1.5|'' = Some (Inl OverflowError)"
proof -
  have lit: "number ''1.5'' = PFloat (Fin (3 / 2))"
    by code_simp
  have mul: "get_value Map.empty (Tree Mul [Leaf (number ''1e155''), Leaf (number ''1e155'')]) =
       Inr (PInt (100000000000000000717623154091016830408061481189160311806712772146250661680488340128266606984576189330386573813296762136260081534229469225952733653677113344 * 100000000000000000717623154091016830408061481189160311806712772146250661680488340128266606984576189330386573813296762136260081534229469225952733653677113344))"
    by code_simp
  have num: "is_number (PInt (100000000000000000717623154091016830408061481189160311806712772146250661680488340128266606984576189330386573813296762136260081534229469225952733653677113344 * 100000000000000000717623154091016830408061481189160311806712772146250661680488340128266606984576189330386573813296762136260081534229469225952733653677113344))" "is_number (PFloat (Fin (3 / 2)))"
    by (simp_all add: is_number_def)
  have ov: "get_value Map.empty (Tree Mul [Leaf (PInt (100000000000000000717623154091016830408061481189160311806712772146250661680488340128266606984576189330386573813296762136260081534229469225952733653677113344 * 100000000000000000717623154091016830408061481189160311806712772146250661680488340128266606984576189330386573813296762136260081534229469225952733653677113344)), Leaf (PFloat (Fin (3 / 2)))]) =
       Inl OverflowError"
    by code_simp
  have doc: "parse ''const x = |1e155 * 1e155 * 1.5|'' = Some (Inl OverflowError)"
    by code_simp
  show ?thesis
    by (intro conjI) (fact lit mul num ov doc)+
qed

section \<open>Properties of identifiers and literals\<close>

text \<open>
  C5: an identifier that is absent from the constant table evaluates to itself, the
  \<open>str\<close> of its name, without an exception, and the serializer turns that \<open>str\<close> into
  a \<open>string\<close> element whose text is the name.
\<close>

theorem unbound_identifier_is_symbol:
  assumes "c name = None"
  shows "get_value c (Leaf (PStr name)) = Inr (PStr name)
       \<and> value c (Leaf (PStr name)) = Inr (PStr name)
       \<and> to_element pystr (PStr name) = Element ''string'' [] (Some name) []
       \<and> value_to_xml pystr (PStr name) (Element tg attrs txt children) =
           Element tg attrs txt (children @ [Element ''string'' [] (Some name) []])"
  using assms by (simp add: value_def)

theorem unbound_identifier_is_symbol_witness:
  "Map.empty ''a'' = None
   \<and> get_value Map.empty (Leaf (PStr ''a'')) = Inr (PStr ''a'')
   \<and> to_element (\<lambda>v. []) (PStr ''a'') = Element ''string'' [] (Some ''a'') []"
  using unbound_identifier_is_symbol [of Map.empty "''a''" "\<lambda>v. []"]
  by simp

text \<open>
  C6: when both operands of \<open>+\<close>, \<open>-\<close>, \<open>*\<close> or \<open>/\<close> evaluate and one of the two
  values is not a number, the operation raises \<open>TypeError\<close>; so does
  \<open>const b = |a * 2|\<close> with \<open>a\<close> unbound.
\<close>

theorem non_number_operand_type_error:
  assumes "get_value c l = Inr a" and "get_value c r = Inr b"
    and "\<not> (is_number a \<and> is_number b)"
  shows "get_value c (Tree Add [l, r]) = Inl TypeError
       \<and> get_value c (Tree Sub [l, r]) = Inl TypeError
       \<and> get_value c (Tree Mul [l, r]) = Inl TypeError
       \<and> get_value c (Tree Div [l, r]) = Inl TypeError
       \<and> parse ''const b = |a * 2|'' = Some (Inl TypeError)"
proof -
  have ev: "eval_binary_op c [l, r] opr = Inl TypeError" for opr
    using assms by (rule eval_binary_op_mismatch)
  have doc: "parse ''const b = |a * 2|'' = Some (Inl TypeError)"
    by code_simp
  show ?thesis
    using ev doc by simp
qed

theorem non_number_operand_type_error_witness:
  "get_value Map.empty (Leaf (PStr ''a'')) = Inr (PStr ''a'')
   \<and> \<not> (is_number (PStr ''a'') \<and> is_number (PInt 2))
   \<and> get_value Map.empty (Tree Mul [Leaf (PStr ''a''), Leaf (PInt 2)]) = Inl TypeError"
  using non_number_operand_type_error [of Map.empty "Leaf (PStr ''a'')" "PStr ''a''" "Leaf (PInt 2)" "PInt 2"]
  by (simp add: is_number_def)

lemma is_integer_finite: "is_integer f \<longleftrightarrow> f = NegZero \<or> (\<exists>i. f = Fin (of_int i))"
proof (cases f)
  case (Fin x)
  have "of_int \<lfloor>x\<rfloor> = x \<longleftrightarrow> (\<exists>i. x = of_int i)"
  proof
    assume "of_int \<lfloor>x\<rfloor> = x"
    then have "x = of_int \<lfloor>x\<rfloor>"
      by (rule sym)
    then show "\<exists>i. x = of_int i" ..
  next
    assume "\<exists>i. x = of_int i"
    then obtain i where "x = of_int i" ..
    then show "of_int \<lfloor>x\<rfloor> = x"
      by simp
  qed
  then show ?thesis
    using Fin by simp
qed simp_all

lemma int_of_integer:
  assumes "is_integer f"
  shows "of_int (int_of f) = fval f"
proof -
  consider "f = NegZero" | i where "f = Fin (of_int i)"
    using assms is_integer_finite [of f] by auto
  then show ?thesis
    by cases (simp_all add: int_of_def)
qed

text \<open>
  \<open>float\<close> rounds a literal to the nearest binary64 number: \<open>0.1\<close> is not a tenth, a
  literal can lose its fractional part or its last digit, and one beyond the range is an
  infinity.  The sum of two \<open>float\<close>s is rounded once more.
\<close>

lemma float_of_rounds:
  "float_of ''0.1'' = Fin (3602879701896397 / 36028797018963968)
   \<and> number ''1.0000000000000000001'' = PInt 1
   \<and> number ''9007199254740993'' = PInt 9007199254740992
   \<and> number ''1e400'' = PFloat PosInf"
  by code_simp

lemma float_sum_rounds:
  "parse ''const x = |0.1 + 0.2|'' =
     Some (Inr [PTuple [PStr ''const'', PStr ''x'', PFloat (Fin (1351079888211149 / 4503599627370496))]])"
  by code_simp

text \<open>
  C8: \<open>number\<close> parses the literal with \<open>float\<close> and gives an \<open>int\<close> exactly when the
  parsed \<open>float\<close> has no fractional part, that is, when it is finite and its value is an
  integer, and that integer is the \<open>int\<close>; otherwise it gives the parsed \<open>float\<close>.
  \<open>5.0\<close> gives the integer 5 and \<open>5.5\<close> the float 5.5.
\<close>

theorem number_kind:
  "((\<exists>i. number t = PInt i) \<longleftrightarrow> is_integer (float_of t))
   \<and> ((\<exists>x. number t = PFloat x) \<longleftrightarrow> \<not> is_integer (float_of t))
   \<and> (is_integer (float_of t) \<longleftrightarrow> float_of t = NegZero \<or> (\<exists>i. float_of t = Fin (of_int i)))
   \<and> (number t = PInt i \<longrightarrow> fval (float_of t) = of_int i)
   \<and> (number t = PFloat x \<longrightarrow> x = float_of t)
   \<and> number ''5.0'' = PInt 5
   \<and> number ''5.5'' = PFloat (Fin (11 / 2))
   \<and> parse ''const x = 5.0'' = Some (Inr [PTuple [PStr ''const'', PStr ''x'', PInt 5]])"
proof -
  have k1: "(\<exists>i. number t = PInt i) \<longleftrightarrow> is_integer (float_of t)"
    by (simp add: number_def Let_def)
  have k2: "(\<exists>x. number t = PFloat x) \<longleftrightarrow> \<not> is_integer (float_of t)"
    by (simp add: number_def Let_def)
  have k3: "is_integer (float_of t) \<longleftrightarrow> float_of t = NegZero \<or> (\<exists>i. float_of t = Fin (of_int i))"
    by (rule is_integer_finite)
  have k4: "number t = PInt i \<longrightarrow> fval (float_of t) = of_int i"
    using int_of_integer [of "float_of t"] by (auto simp: number_def Let_def split: if_splits)
  have k5: "number t = PFloat x \<longrightarrow> x = float_of t"
    by (auto simp: number_def Let_def split: if_splits)
  have a: "number ''5.0'' = PInt 5" by code_simp
  have b: "number ''5.5'' = PFloat (Fin (11 / 2))" by code_simp
  have d: "parse ''const x = 5.0'' = Some (Inr [PTuple [PStr ''const'', PStr ''x'', PInt 5]])"
    by code_simp
  show ?thesis
    by (intro conjI) (fact k1 k2 k3 k4 k5 a b d)+
qed

theorem number_kind_witness:
  "number ''-12e-1'' = PFloat (Fin (- (5404319552844595 / 4503599627370496)))
   \<and> \<not> is_integer (float_of ''-12e-1'')
   \<and> float_of ''-12e-1'' = Fin (- (5404319552844595 / 4503599627370496))"
proof -
  have n: "number ''-12e-1'' = PFloat (Fin (- (5404319552844595 / 4503599627370496)))"
    by code_simp
  then have ex: "\<exists>x. number ''-12e-1'' = PFloat x" ..
  have "(\<exists>x. number ''-12e-1'' = PFloat x) \<longleftrightarrow> \<not> is_integer (float_of ''-12e-1'')"
    by (rule conjunct1 [OF conjunct2 [OF number_kind]])
  then have i: "\<not> is_integer (float_of ''-12e-1'')"
    using ex by (rule iffD1)
  have "number ''-12e-1'' = PFloat (Fin (- (5404319552844595 / 4503599627370496)))
      \<longrightarrow> Fin (- (5404319552844595 / 4503599627370496)) = float_of ''-12e-1''"
    by (rule conjunct1 [OF conjunct2 [OF conjunct2 [OF conjunct2 [OF conjunct2 [OF number_kind]]]]])
  then have "Fin (- (5404319552844595 / 4503599627370496)) = float_of ''-12e-1''"
    using n by (rule mp)
  then have f: "float_of ''-12e-1'' = Fin (- (5404319552844595 / 4503599627370496))"
    by (rule sym)
  show ?thesis
    by (intro conjI) (fact n i f)+
qed

section \<open>Properties of division by zero\<close>

text \<open>
  C7 (amended): a division whose left operand evaluates to a number and whose right
  operand evaluates to zero raises \<open>ZeroDivisionError\<close>; a run of \<open>main\<close> in which
  parsing raises it ends with status 1 and the runtime-error message and leaves every
  file as it was; \<open>const z = |1 / 0|\<close> is such a run.
\<close>

theorem zero_divisor_number_dividend:
  "(get_value c l = Inr a \<and> get_value c r = Inr b \<and> is_number a \<and> is_number b \<and> \<not> ne_zero b
      \<longrightarrow> get_value c (Tree Div [l, r]) = Inl ZeroDivisionError)
   \<and> (fs input = Some source \<and> parse source = Some (Inl ZeroDivisionError)
      \<longrightarrow> main pystr prettify_xml fs input output = Some (1, RuntimeMessage, fs))
   \<and> parse ''const z = |1 / 0|'' = Some (Inl ZeroDivisionError)"
proof -
  have ev: "get_value c l = Inr a \<and> get_value c r = Inr b \<and> is_number a \<and> is_number b \<and> \<not> ne_zero b
      \<longrightarrow> get_value c (Tree Div [l, r]) = Inl ZeroDivisionError"
    by auto
  have run: "fs input = Some source \<and> parse source = Some (Inl ZeroDivisionError)
      \<longrightarrow> main pystr prettify_xml fs input output = Some (1, RuntimeMessage, fs)"
    using main_failure [of fs input source ZeroDivisionError] by simp
  have doc: "parse ''const z = |1 / 0|'' = Some (Inl ZeroDivisionError)"
    by code_simp
  show ?thesis
    by (intro conjI) (fact ev run doc)+
qed

theorem zero_divisor_number_dividend_witness:
  "get_value Map.empty (Tree Div [Leaf (PInt 1), Leaf (PFloat (Fin 0))]) = Inl ZeroDivisionError
   \<and> main (\<lambda>v. []) (\<lambda>x. []) (Map.empty(''in'' \<mapsto> ''const z = |1 / 0|'')) ''in'' ''out'' =
       Some (1, RuntimeMessage, Map.empty(''in'' \<mapsto> ''const z = |1 / 0|''))"
  using zero_divisor_number_dividend [of Map.empty "Leaf (PInt 1)" "PInt 1" "Leaf (PFloat (Fin 0))" "PFloat (Fin 0)"
      "Map.empty(''in'' \<mapsto> ''const z = |1 / 0|'')" "''in''" "''const z = |1 / 0|''" "\<lambda>v. []" "\<lambda>x. []" "''out''"]
  by (simp add: is_number_def)

text \<open>
  The type check of \<open>_eval_binary_op\<close> comes before the division: with an unbound
  identifier as the dividend, a zero divisor ends in \<open>TypeError\<close>, not in
  \<open>ZeroDivisionError\<close>.
\<close>

theorem zero_divisor_symbol_dividend:
  "get_value Map.empty (Leaf (number ''0'')) = Inr (PInt 0)
   \<and> parse ''const z = |a / 0|'' = Some (Inl TypeError)
   \<and> main (\<lambda>v. []) (\<lambda>x. []) (Map.empty(''in'' \<mapsto> ''const z = |a / 0|'')) ''in'' ''out'' =
       Some (1, TypeMessage, Map.empty(''in'' \<mapsto> ''const z = |a / 0|''))"
proof -
  have z: "number ''0'' = PInt 0" by code_simp
  have doc: "parse ''const z = |a / 0|'' = Some (Inl TypeError)" by code_simp
  have "main (\<lambda>v. []) (\<lambda>x. []) (Map.empty(''in'' \<mapsto> ''const z = |a / 0|'')) ''in'' ''out'' =
       Some (1, report TypeError, Map.empty(''in'' \<mapsto> ''const z = |a / 0|''))"
    by (rule main_failure [OF _ doc]) simp
  then show ?thesis using z doc by simp
qed

section \<open>Properties of documents without items\<close>



lemma skip_ignored_ws:
  assumes "\<forall>ch \<in> set s. is_ws ch"
  shows "skip_ignored s = []"
proof (cases s)
  case Nil
  then show ?thesis by (simp add: skip_ignored.simps)
next
  case (Cons ch cs)
  then have w: "is_ws ch" and d: "dropWhile is_ws cs = []"
    using assms by (auto simp: dropWhile_eq_Nil_conv)
  have "skip_ignored (ch # cs) = skip_ignored (dropWhile is_ws cs)"
    using w by (subst skip_ignored.simps) simp
  also have "\<dots> = skip_ignored []"
    by (simp only: d)
  also have "\<dots> = []"
    by (simp add: skip_ignored.simps)
  finally show ?thesis
    using Cons by simp
qed



section \<open>Properties of comments\<close>

lemma comment_end_first_marker:
  assumes "newline \<notin> set body"
  shows "\<exists>pre suf. body @ ''#/'' @ rest = pre @ ''#/'' @ suf \<and> length pre \<le> length body
           \<and> comment_end (body @ ''#/'' @ rest) = Some suf"
  using assms
proof (induction body)
  case Nil
  have "[] @ ''#/'' @ rest = [] @ ''#/'' @ rest \<and> length ([] :: string) \<le> length ([] :: string)
      \<and> comment_end ([] @ ''#/'' @ rest) = Some rest"
    by simp
  then show ?case
    by (intro exI)
next
  case (Cons ch body)
  define w where "w = body @ ''#/'' @ rest"
  have split: "(ch # body) @ ''#/'' @ rest = ch # w"
    by (simp add: w_def)
  from Cons.prems have nl: "ch \<noteq> newline" and "newline \<notin> set body"
    by auto
  from Cons.IH [OF this(2)] obtain pre suf where ih: "w = pre @ ''#/'' @ suf"
      "length pre \<le> length body" "comment_end w = Some suf"
    unfolding w_def by (elim exE conjE)
  show ?case
    unfolding split
  proof (cases "ch = CHR ''#'' \<and> (case w of [] \<Rightarrow> False | d # _ \<Rightarrow> d = CHR ''/'')")
    case True
    then obtain t where t: "w = CHR ''/'' # t"
      by (cases w) simp_all
    have e: "ch # w = [] @ ''#/'' @ t"
      using True t by simp
    have l: "length ([] :: string) \<le> length (ch # body)"
      by simp
    have c: "comment_end (ch # w) = Some t"
      using True t by simp
    have "ch # w = [] @ ''#/'' @ t \<and> length ([] :: string) \<le> length (ch # body)
        \<and> comment_end (ch # w) = Some t"
      by (intro conjI) (fact e l c)+
    then show "\<exists>pre suf. ch # w = pre @ ''#/'' @ suf \<and> length pre \<le> length (ch # body)
        \<and> comment_end (ch # w) = Some suf"
      by (intro exI)
  next
    case False
    have c: "comment_end (ch # w) = Some suf"
      using False nl ih(3) by auto
    have e: "ch # w = (ch # pre) @ ''#/'' @ suf"
      using ih(1) by simp
    have l: "length (ch # pre) \<le> length (ch # body)"
      using ih(2) by simp
    have "ch # w = (ch # pre) @ ''#/'' @ suf \<and> length (ch # pre) \<le> length (ch # body)
        \<and> comment_end (ch # w) = Some suf"
      by (intro conjI) (fact e l c)+
    then show "\<exists>pre suf. ch # w = pre @ ''#/'' @ suf \<and> length pre \<le> length (ch # body)
        \<and> comment_end (ch # w) = Some suf"
      by (intro exI)
  qed
qed

text \<open>
  C2 (amended): a block comment whose text holds no newline is skipped where a token
  may start, up to the first \<open>#/\<close> behind its opening \<open>/#\<close>; lexing goes on
  behind it as if the comment were not there.
\<close>

theorem block_comment_on_one_line:
  assumes "newline \<notin> set body"
  shows "\<exists>pre suf. body @ ''#/'' @ rest = pre @ ''#/'' @ suf \<and> length pre \<le> length body
           \<and> skip_ignored (''/#'' @ body @ ''#/'' @ rest) = skip_ignored suf
           \<and> next_token acc (''/#'' @ body @ ''#/'' @ rest) = next_token acc suf"
proof -
  from comment_end_first_marker [OF assms, of rest]
  obtain pre suf where ps: "body @ ''#/'' @ rest = pre @ ''#/'' @ suf"
      "length pre \<le> length body" "comment_end (body @ ''#/'' @ rest) = Some suf"
    by (elim exE conjE)
  have "block_comment (''/#'' @ body @ ''#/'' @ rest) = Some suf"
    using ps(3) by (simp add: block_comment_def)
  then have sk: "skip_ignored (''/#'' @ body @ ''#/'' @ rest) = skip_ignored suf"
    by (subst skip_ignored.simps) (simp add: is_ws_def)
  then have nt: "next_token acc (''/#'' @ body @ ''#/'' @ rest) = next_token acc suf"
    by (simp add: next_token_def)
  have "body @ ''#/'' @ rest = pre @ ''#/'' @ suf \<and> length pre \<le> length body
           \<and> skip_ignored (''/#'' @ body @ ''#/'' @ rest) = skip_ignored suf
           \<and> next_token acc (''/#'' @ body @ ''#/'' @ rest) = next_token acc suf"
    by (intro conjI) (fact ps(1) ps(2) sk nt)+
  then show ?thesis
    by (intro exI)
qed

theorem block_comment_on_one_line_witness:
  "newline \<notin> set '' note ''
   \<and> (\<exists>pre suf. '' note '' @ ''#/'' @ '' const x = 5'' = pre @ ''#/'' @ suf
         \<and> length pre \<le> length '' note ''
         \<and> skip_ignored (''/#'' @ '' note '' @ ''#/'' @ '' const x = 5'') = skip_ignored suf
         \<and> next_token item_start (''/#'' @ '' note '' @ ''#/'' @ '' const x = 5'') =
             next_token item_start suf)
   \<and> next_token item_start (''/# note #/ const x = 5'') = Inr ((T_CONST, ''const''), '' x = 5'')
   \<and> parse ''/# note #/ const x = 5'' = Some (Inr [PTuple [PStr ''const'', PStr ''x'', PInt 5]])"
proof -
  have n: "newline \<notin> set '' note ''"
    by (simp add: newline_def)
  note m = block_comment_on_one_line [OF n, of "'' const x = 5''" item_start]
  have t: "next_token item_start (''/# note #/ const x = 5'') = Inr ((T_CONST, ''const''), '' x = 5'')"
    by code_simp
  have p: "parse ''/# note #/ const x = 5'' = Some (Inr [PTuple [PStr ''const'', PStr ''x'', PInt 5]])"
    by code_simp
  show ?thesis
    by (intro conjI) (fact n m t p)+
qed

text \<open>
  A block comment with a newline in it is not skipped: the document that parses
  without the comment is a syntax error with it.
\<close>

theorem block_comment_across_lines:
  "parse ''const x = 5'' = Some (Inr [PTuple [PStr ''const'', PStr ''x'', PInt 5]])
   \<and> parse (''/# a'' @ [newline] @ ''b #/ const x = 5'') = Some (Inl LarkError)"
proof -
  have a: "parse ''const x = 5'' = Some (Inr [PTuple [PStr ''const'', PStr ''x'', PInt 5]])"
    by code_simp
  have b: "parse (''/# a'' @ [newline] @ ''b #/ const x = 5'') = Some (Inl LarkError)"
    by code_simp
  show ?thesis using a b by simp
qed

section \<open>Properties of function calls\<close>

text \<open>
  The tree the parser builds for a call holds the argument alone, so
  \<open>tree.children[1]\<close> raises \<open>IndexError\<close> for every call that parses.
\<close>

lemma function_without_name:
  "get_value c (Tree Function [e]) = Inl IndexError"
  by simp

lemma function_call_document:
  "parse ''const a = (1,2,3) const n = |len(a)|'' = Some (Inl IndexError)"
  by code_simp

text \<open>
  C1 (amended): \<open>_eval_function\<close> with the name \<open>len\<close> in \<open>children[0]\<close> returns the
  number of elements when the argument evaluates to a list and raises \<open>TypeError\<close>
  when it evaluates to anything else; the document \<open>const n = |len((1,2,3))|\<close> is a
  syntax error, since the argument of \<open>len\<close> is an \<open>expr\<close> and an array literal is
  not one.
\<close>

theorem len_of_array:
  assumes "get_value c arg = Inr v"
  shows "(\<forall>xs. v = PList xs \<longrightarrow>
            eval_function c [Leaf (PStr ''len''), arg] = Inr (PInt (int (length xs))))
       \<and> (\<not> is_list v \<longrightarrow> eval_function c [Leaf (PStr ''len''), arg] = Inl TypeError)
       \<and> parse ''const n = |len((1,2,3))|'' = Some (Inl LarkError)"
proof -
  have l: "\<forall>xs. v = PList xs \<longrightarrow>
            eval_function c [Leaf (PStr ''len''), arg] = Inr (PInt (int (length xs)))"
    using assms by simp
  have t: "\<not> is_list v \<longrightarrow> eval_function c [Leaf (PStr ''len''), arg] = Inl TypeError"
    using assms by (cases v) (simp_all add: is_list_def)
  have d: "parse ''const n = |len((1,2,3))|'' = Some (Inl LarkError)"
    by code_simp
  show ?thesis
    by (intro conjI) (fact l t d)+
qed

theorem len_of_array_witness:
  "get_value Map.empty (Leaf (PInt 5)) = Inr (PInt 5) \<and> \<not> is_list (PInt 5)
   \<and> eval_function Map.empty [Leaf (PStr ''len''), Leaf (PInt 5)] = Inl TypeError
   \<and> eval_function Map.empty [Leaf (PStr ''len''), Leaf (PList [PInt 1, PInt 2, PInt 3])] = Inr (PInt 3)"
  using len_of_array [of Map.empty "Leaf (PInt 5)" "PInt 5"]
    len_of_array [of Map.empty "Leaf (PList [PInt 1, PInt 2, PInt 3])" "PList [PInt 1, PInt 2, PInt 3]"]
  by (simp add: is_list_def)

text \<open>
  The document \<open>const n = |len((1,2,3))|\<close> does not bind \<open>n\<close> to 3: the parser
  rejects it.
\<close>

theorem len_of_array_literal:
  "parse ''const n = |len((1,2,3))|'' = Some (Inl LarkError)
   \<and> parse ''const n = |len((1,2,3))|'' \<noteq> Some (Inr [PTuple [PStr ''const'', PStr ''n'', PInt 3]])"
proof -
  have "parse ''const n = |len((1,2,3))|'' = Some (Inl LarkError)"
    by code_simp
  then show ?thesis by simp
qed

section \<open>Properties of table literals\<close>

lemma get_value_Leaf: "get_value c (Leaf v) = Inr (resolved c v)"
  by (cases v) (simp_all add: resolved_def split: option.split)

lemma dict_from_foldl: "dict_from c d items = Inr (PDict (foldl (store_entry c) d items))"
proof (induction items arbitrary: d)
  case Nil
  then show ?case by simp
next
  case (Cons kv items)
  obtain k v where kv: "kv = (k, v)" by (cases kv)
  show ?case
    by (simp add: kv get_value_Leaf Cons.IH store_entry_def)
qed

lemma keys_dict_set:
  "map fst (dict_set d k v) = (if k \<in> set (map fst d) then map fst d else map fst d @ [k])"
proof (induction d)
  case Nil
  then show ?case by simp
next
  case (Cons e d)
  obtain k' v' where e: "e = (k', v')" by (cases e)
  show ?case
  proof (cases "k' = k")
    case True
    then show ?thesis by (simp add: e)
  next
    case False
    then have "k \<noteq> k'" by (rule not_sym)
    then show ?thesis
      using False by (simp add: e Cons.IH)
  qed
qed

lemma distinct_dict_set:
  assumes "distinct (map fst d)"
  shows "distinct (map fst (dict_set d k v))"
  using assms by (auto simp: keys_dict_set)

lemma map_of_dict_set: "map_of (dict_set d k v) = (map_of d)(k \<mapsto> v)"
  by (induction d) auto

lemma keys_foldl_prefix:
  "\<exists>extra. map fst (foldl (store_entry c) d items) = map fst d @ extra"
proof (induction items arbitrary: d)
  case Nil
  then show ?case by simp
next
  case (Cons kv items)
  obtain e1 where e1: "map fst (store_entry c d kv) = map fst d @ e1"
    by (cases "fst kv \<in> set (map fst d)") (auto simp: store_entry_def keys_dict_set)
  obtain e2 where "map fst (foldl (store_entry c) (store_entry c d kv) items) =
      map fst (store_entry c d kv) @ e2"
    using Cons.IH by auto
  then have "map fst (foldl (store_entry c) d (kv # items)) = map fst d @ (e1 @ e2)"
    using e1 by simp
  then show ?case by (rule exI)
qed

lemma distinct_foldl:
  assumes "distinct (map fst d)"
  shows "distinct (map fst (foldl (store_entry c) d items))"
  using assms
proof (induction items arbitrary: d)
  case Nil
  then show ?case by simp
next
  case (Cons kv items)
  have "distinct (map fst (store_entry c d kv))"
    unfolding store_entry_def using Cons.prems by (rule distinct_dict_set)
  then show ?case
    using Cons.IH by simp
qed

lemma keys_foldl_set:
  "set (map fst (foldl (store_entry c) d items)) = fst ` set d \<union> fst ` set items"
proof (induction items arbitrary: d)
  case Nil
  then show ?case by simp
next
  case (Cons kv items)
  have "set (map fst (store_entry c d kv)) = fst ` set d \<union> {fst kv}"
    by (auto simp: store_entry_def keys_dict_set)
  then show ?case
    using Cons.IH [of "store_entry c d kv"] by auto
qed

lemma map_of_foldl_other:
  assumes "k \<notin> fst ` set items"
  shows "map_of (foldl (store_entry c) d items) k = map_of d k"
  using assms
proof (induction items arbitrary: d)
  case Nil
  then show ?case by simp
next
  case (Cons kv items)
  have "map_of (store_entry c d kv) k = map_of d k"
    using Cons.prems by (simp add: store_entry_def map_of_dict_set)
  then show ?case
    using Cons.IH [of "store_entry c d kv"] Cons.prems by simp
qed

text \<open>
  C9: a table literal in which a key occurs twice (first in the entry behind \<open>xs\<close>,
  last in the entry before \<open>zs\<close>) evaluates without an exception to a \<open>dict\<close> in which
  the key occurs once, bound to the value of its last entry, at the place of its first
  entry: right behind the keys of the entries \<open>xs\<close> before it.
\<close>

theorem table_duplicate_key:
  assumes "items = xs @ (k, v1) # ys @ (k, v2) # zs"
    and "k \<notin> fst ` set xs" and "k \<notin> fst ` set zs"
  shows "\<exists>d dx extra. dict c items = Inr (PDict d) \<and> dict c xs = Inr (PDict dx)
           \<and> map fst d = map fst dx @ k # extra
           \<and> distinct (map fst d)
           \<and> map_of d k = Some (resolved c v2)"
proof -
  define dx where "dx = foldl (store_entry c) [] xs"
  define d1 where "d1 = store_entry c dx (k, v1)"
  define d2 where "d2 = foldl (store_entry c) d1 ys"
  define d3 where "d3 = store_entry c d2 (k, v2)"
  define d where "d = foldl (store_entry c) d3 zs"
  have whole: "foldl (store_entry c) [] items = d"
    by (simp add: assms(1) d_def d3_def d2_def d1_def dx_def)
  have r1: "dict c items = Inr (PDict d)"
    by (simp add: dict_def dict_from_foldl whole)
  have r2: "dict c xs = Inr (PDict dx)"
    by (simp add: dict_def dict_from_foldl dx_def)
  have "k \<notin> set (map fst dx)"
    using keys_foldl_set [of c "[]" xs] assms(2) by (simp add: dx_def)
  then have k1: "map fst d1 = map fst dx @ [k]"
    by (simp add: d1_def store_entry_def keys_dict_set)
  obtain e2 where e2: "map fst d2 = map fst d1 @ e2"
    unfolding d2_def using keys_foldl_prefix [of c d1 ys] by (elim exE)
  have "k \<in> set (map fst d2)"
    by (simp add: e2 k1)
  then have k3: "map fst d3 = map fst d2"
    by (simp add: d3_def store_entry_def keys_dict_set)
  obtain e3 where e3: "map fst d = map fst d3 @ e3"
    unfolding d_def using keys_foldl_prefix [of c d3 zs] by (elim exE)
  have r3: "map fst d = map fst dx @ k # (e2 @ e3)"
    by (simp add: e3 k3 e2 k1)
  have "distinct (map fst ([] :: (string \<times> pyval) list))"
    by simp
  then have "distinct (map fst (foldl (store_entry c) [] items))"
    by (rule distinct_foldl)
  then have r4: "distinct (map fst d)"
    by (simp only: whole)
  have "map_of d3 k = Some (resolved c v2)"
    by (simp add: d3_def store_entry_def map_of_dict_set)
  then have r5: "map_of d k = Some (resolved c v2)"
    unfolding d_def using map_of_foldl_other [OF assms(3), of c d3] by simp
  have "dict c items = Inr (PDict d) \<and> dict c xs = Inr (PDict dx)
           \<and> map fst d = map fst dx @ k # (e2 @ e3)
           \<and> distinct (map fst d)
           \<and> map_of d k = Some (resolved c v2)"
    by (intro conjI) (fact r1 r2 r3 r4 r5)+
  then show ?thesis
    by (intro exI)
qed

theorem table_duplicate_key_witness:
  "[(''a'', PInt 1), (''b'', PInt 2), (''a'', PInt 3)] =
      [] @ (''a'', PInt 1) # [(''b'', PInt 2)] @ (''a'', PInt 3) # []
   \<and> (\<exists>d dx extra.
         dict Map.empty [(''a'', PInt 1), (''b'', PInt 2), (''a'', PInt 3)] = Inr (PDict d)
         \<and> dict Map.empty [] = Inr (PDict dx)
         \<and> map fst d = map fst dx @ ''a'' # extra
         \<and> distinct (map fst d)
         \<and> map_of d ''a'' = Some (resolved Map.empty (PInt 3)))
   \<and> dict Map.empty [(''a'', PInt 1), (''b'', PInt 2), (''a'', PInt 3)] =
       Inr (PDict [(''a'', PInt 3), (''b'', PInt 2)])
   \<and> parse ''table([a = 1, b = 2, a = 3])'' = Some (Inr [PDict [(''a'', PInt 3), (''b'', PInt 2)]])"
proof -
  have i: "[(''a'', PInt 1), (''b'', PInt 2), (''a'', PInt 3)] =
      [] @ (''a'', PInt 1) # [(''b'', PInt 2)] @ (''a'', PInt 3) # []"
    by simp
  have x: "''a'' \<notin> fst ` set ([] :: (string \<times> pyval) list)"
    by simp
  note m = table_duplicate_key [OF i x x, of Map.empty]
  have e: "dict Map.empty [(''a'', PInt 1), (''b'', PInt 2), (''a'', PInt 3)] =
       Inr (PDict [(''a'', PInt 3), (''b'', PInt 2)])"
    by code_simp
  have p: "parse ''table([a = 1, b = 2, a = 3])'' = Some (Inr [PDict [(''a'', PInt 3), (''b'', PInt 2)]])"
    by code_simp
  show ?thesis
    by (intro conjI) (fact i m e p)+
qed

end

